theory Spec2Isabelle
  imports Main "HOL-Library.Word"
begin

unbundle bit_operations_syntax

section \<open>Bytes and C text formatting\<close>

text \<open>
  The programs are 32-bit Windows C: \<open>BYTE\<close> and \<open>unsigned char\<close> are 8-bit words,
  \<open>DWORD\<close>, \<open>unsigned\<close> and pointers are 32-bit words. A buffer of known size is the
  list of its bytes. Lengths and offsets that provably stay far below \<open>2 ^ 32\<close> are
  natural numbers.
\<close>

type_synonym byte = "8 word"
type_synonym dword = "32 word"

text \<open>The conversion \<open>%c\<close> of \<open>printf\<close>, applied to a byte value.\<close>

definition fmt_c :: "byte \<Rightarrow> char" where
  "fmt_c b = char_of (unat b)"

text \<open>The conversion \<open>%02X\<close> of \<open>printf\<close>, applied to a byte value: two upper-case
  hexadecimal digits.\<close>

definition hex_digit :: "nat \<Rightarrow> char" where
  "hex_digit n = (''0123456789ABCDEF'') ! (n mod 16)"

definition fmt_02X :: "byte \<Rightarrow> string" where
  "fmt_02X b = [hex_digit (unat b div 16), hex_digit (unat b mod 16)]"

section \<open>The hex dump of a secret (DumpExt.c: DumpSecretData; dumplsa.c: dump_bytes)\<close>

text \<open>\<open>IsReadableChar\<close> of DumpExt.c and \<open>myisprint\<close> of dumplsa.c, on the \<open>int\<close> that an
  \<open>unsigned char\<close> promotes to.\<close>

definition IsReadableChar :: "int \<Rightarrow> bool" where
  "IsReadableChar nChar = (nChar \<ge> 32 \<and> nChar \<le> 126)"

definition myisprint :: "int \<Rightarrow> bool" where
  "myisprint ch = ((ch \<ge> 32) \<and> (ch \<le> 126))"

text \<open>The \<open>sprintf\<close> of the loop over full rows: sixteen \<open>" %02X"\<close>, two blanks, sixteen
  \<open>%c\<close> whose argument is \<open>IsReadableChar( p[i] ) ? p[i] : '.'\<close>.\<close>

definition full_row :: "(int \<Rightarrow> bool) \<Rightarrow> byte list \<Rightarrow> string" where
  "full_row readable p =
     concat (map (\<lambda>i. CHR '' '' # fmt_02X (p ! i)) [0..<16]) @ ''  '' @
     map (\<lambda>i. if readable (uint (p ! i)) then fmt_c (p ! i) else CHR ''.'') [0..<16]"

text \<open>The loop \<open>while ( dwSize-- )\<close> of the last row: each byte appends \<open>" %02X"\<close> to
  \<open>szDumpBuff\<close> and one character to \<open>szTempBuffer\<close>.\<close>

fun last_row_loop :: "(int \<Rightarrow> bool) \<Rightarrow> byte list \<Rightarrow> string \<times> byte list \<Rightarrow> string \<times> byte list" where
  "last_row_loop readable [] acc = acc"
| "last_row_loop readable (b # p) (szDumpBuff, szTempBuffer) =
     last_row_loop readable p
       (szDumpBuff @ CHR '' '' # fmt_02X b,
        szTempBuffer @ [if readable (uint b) then b else 46])"

text \<open>A character buffer read by \<open>%s\<close>: the characters before the first NUL.\<close>

definition c_string :: "byte list \<Rightarrow> string" where
  "c_string buf = map fmt_c (takeWhile (\<lambda>b. b \<noteq> 0) buf)"

text \<open>The last row: \<open>j = 16 - dwSize\<close>, then \<open>"%*s%s"\<close> with width \<open>j * 3 + 2\<close>, the empty
  string and \<open>szTempBuffer\<close>.\<close>

definition last_row :: "(int \<Rightarrow> bool) \<Rightarrow> byte list \<Rightarrow> string" where
  "last_row readable p =
     (let j = 16 - length p;
          (szDumpBuff, szTempBuffer) = last_row_loop readable p ([], [])
      in szDumpBuff @ replicate (j * 3 + 2) (CHR '' '') @ c_string szTempBuffer)"

text \<open>\<open>DumpSecretData\<close>: the rows it formats and appends, one \<open>fprintf\<close> of \<open>"%s\n"\<close>
  each, to LSASecrets.txt. The argument is the \<open>dwSize\<close> bytes at \<open>p\<close>.\<close>

function DumpSecretData :: "byte list \<Rightarrow> string list" where
  "DumpSecretData p =
     (if length p > 16 then full_row IsReadableChar p # DumpSecretData (drop 16 p)
      else if length p > 0 then [last_row IsReadableChar p]
      else [])"
  by pat_completeness auto
termination
  by (relation "measure length") auto

text \<open>\<open>dump_bytes\<close>: the texts it sends down the pipe, one \<open>SendText\<close> per row; here the
  newline belongs to the formatted row.\<close>

function dump_bytes :: "byte list \<Rightarrow> string list" where
  "dump_bytes p =
     (if length p > 16 then (full_row myisprint p @ [CHR 0x0A]) # dump_bytes (drop 16 p)
      else if length p \<noteq> 0 then [last_row myisprint p @ [CHR 0x0A]]
      else [])"
  by pat_completeness auto
termination
  by (relation "measure length") auto

text \<open>The row the specification describes for a group \<open>g\<close> of at most sixteen bytes:
  one blank and two hexadecimal digits per byte, blanks up to column 50, then one character
  per byte, the byte itself when it lies in 0x20..0x7E and a dot otherwise.\<close>

definition ascii_or_dot :: "byte \<Rightarrow> char" where
  "ascii_or_dot b = (if 0x20 \<le> b \<and> b \<le> 0x7E then fmt_c b else CHR ''.'')"

definition hex_row :: "byte list \<Rightarrow> string" where
  "hex_row g = concat (map (\<lambda>b. CHR '' '' # fmt_02X b) g) @
     replicate ((16 - length g) * 3 + 2) (CHR '' '') @ map ascii_or_dot g"

section \<open>The entry point of the extension (DumpExt.c: DumpLSAInfo)\<close>

text \<open>The messages that DumpExt.c and DumpSvc.c append to ErrorLog.txt, one constructor per
  message text of the source.\<close>

datatype log_message =
    Cannot_open_registry_key_HKLM
  | Cannot_open_registry_key_CurrentVersion
  | Cannot_read_registry_value_CurrentVersion
  | Cannot_query_LSA_Secret
  | Cannot_open_LSASS_process
  | Cannot_load_Kernel32_functions
  | Cannot_allocate_virtual_memory
  | Cannot_write_to_process_memory
  | Cannot_create_LSASS_thread
  | Cannot_load_SAM_functions
  | Cannot_open_LSA_policy
  | Cannot_query_LSA_information_policy
  | Cannot_connect_to_SAM
  | Cannot_open_SAM

text \<open>What \<open>DumpLSAInfo\<close> does, in order: the four dump routines it may call, the
  obfuscation of an output file, a message appended to the error log, the closing of the
  registry key.\<close>

datatype lsainfo_action =
    Call_DumpPWCache
  | Call_DumpLSASecrets
  | Call_DumpPWHashes
  | Call_DumpPWHistoryHashes
  | EncryptOutputFile string
  | LogError log_message
  | RegCloseKey

text \<open>The answers of the registry: whether \<open>RegConnectRegistry\<close> and \<open>RegOpenKeyEx\<close>
  return \<open>ERROR_SUCCESS\<close>, and for \<open>RegQueryValueEx\<close> the string it leaves in
  \<open>szCurrentVersion\<close>, or \<open>None\<close> when it fails.\<close>

record registry_answers =
  RegConnectRegistry_ok :: bool
  RegOpenKeyEx_ok :: bool
  RegQueryValueEx_CurrentVersion :: "string option"

text \<open>\<open>atoi\<close> of the C library: white space, an optional sign, then decimal digits up to the
  first character that is none.\<close>

definition is_digit :: "char \<Rightarrow> bool" where
  "is_digit c = (48 \<le> (of_char c :: nat) \<and> (of_char c :: nat) \<le> 57)"

definition is_space :: "char \<Rightarrow> bool" where
  "is_space c = ((of_char c :: nat) = 32 \<or> (9 \<le> (of_char c :: nat) \<and> (of_char c :: nat) \<le> 13))"

fun atoi_digits :: "string \<Rightarrow> int \<Rightarrow> int" where
  "atoi_digits [] acc = acc"
| "atoi_digits (c # cs) acc =
     (if is_digit c then atoi_digits cs (acc * 10 + (int (of_char c) - 48)) else acc)"

definition atoi :: "string \<Rightarrow> int" where
  "atoi s =
     (case dropWhile is_space s of
        [] \<Rightarrow> 0
      | c # cs \<Rightarrow>
          if c = CHR ''-'' then - atoi_digits cs 0
          else if c = CHR ''+'' then atoi_digits cs 0
          else atoi_digits (c # cs) 0)"

text \<open>The block \<open>if ( bDumpPWCache ) { ... }\<close>. \<open>szMajorVersion\<close> is the first character of
  \<open>szCurrentVersion\<close> followed by NUL.\<close>

definition DumpLSAInfo_cache :: "registry_answers \<Rightarrow> lsainfo_action list" where
  "DumpLSAInfo_cache reg =
     (if RegConnectRegistry_ok reg then
        (if RegOpenKeyEx_ok reg then
           (case RegQueryValueEx_CurrentVersion reg of
              Some szCurrentVersion \<Rightarrow>
                (if szCurrentVersion \<noteq> [] then
                   (if atoi [hd szCurrentVersion] > 4 then [Call_DumpPWCache] else [])
                 else [])
            | None \<Rightarrow> [LogError Cannot_read_registry_value_CurrentVersion])
         else [LogError Cannot_open_registry_key_CurrentVersion])
        @ [RegCloseKey]
      else [LogError Cannot_open_registry_key_HKLM])
     @ [EncryptOutputFile ''PWCache.txt'']"

definition DumpLSAInfo ::
  "registry_answers \<Rightarrow> bool \<Rightarrow> bool \<Rightarrow> bool \<Rightarrow> bool \<Rightarrow> lsainfo_action list" where
  "DumpLSAInfo reg bDumpPWCache bDumpLSASecrets bDumpPWHashes bDumpPWHistoryHashes =
     (if bDumpPWCache then DumpLSAInfo_cache reg else []) @
     (if bDumpLSASecrets then [Call_DumpLSASecrets, EncryptOutputFile ''LSASecrets.txt''] else []) @
     (if bDumpPWHashes then [Call_DumpPWHashes, EncryptOutputFile ''PWHashes.txt''] else []) @
     (if bDumpPWHistoryHashes
      then [Call_DumpPWHistoryHashes, EncryptOutputFile ''PWHistoryHashes.txt''] else [])"

text \<open>The actions of \<open>DumpLSAInfo\<close> that belong to the three categories other than the
  password cache.\<close>

definition other_category :: "lsainfo_action \<Rightarrow> bool" where
  "other_category a =
     (a = Call_DumpLSASecrets \<or> a = Call_DumpPWHashes \<or> a = Call_DumpPWHistoryHashes \<or>
      a = EncryptOutputFile ''LSASecrets.txt'' \<or> a = EncryptOutputFile ''PWHashes.txt'' \<or>
      a = EncryptOutputFile ''PWHistoryHashes.txt'')"

definition is_LogError :: "lsainfo_action \<Rightarrow> bool" where
  "is_LogError a = (case a of LogError m \<Rightarrow> True | _ \<Rightarrow> False)"

section \<open>Injection into the target process (DumpSvc.c: InjectDLL; lsadump2.c: InjectDll)\<close>

text \<open>
  Both routines talk to the operating system only; the model takes the answers of the
  system calls as input and returns the calls made, in order, with the arguments the
  claims are about. Handles, addresses and sizes are 32-bit words, \<open>NULL\<close> is 0, and the
  pointer and \<open>DWORD\<close> arithmetic of the source is word arithmetic.
\<close>

record system_answers =
  OpenProcess_handle :: dword
  pLoadLibrary :: dword
  pGetProcAddress :: dword
  pFreeLibrary :: dword
  thunk_address :: dword
  marker_address :: dword
  VirtualAllocEx_address :: dword
  WriteProcessMemory_first :: bool
  WriteProcessMemory_second :: bool
  CreateRemoteThread_handle :: dword

text \<open>The local buffer a \<open>WriteProcessMemory\<close> copies from: the argument block
  (\<open>ThreadArgs\<close>, \<open>remInfo\<close>) or the code of the thunk (\<open>LsaThreadFunction\<close>,
  \<open>RemoteFunction\<close>).\<close>

datatype local_source = ArgumentBlock | ThunkCode

text \<open>The messages \<open>InjectDll\<close> of lsadump2.c prints to \<open>stderr\<close>.\<close>

datatype stderr_message =
    VirtualAllocEx_failed
  | WriteProcessMemory_failed
  | CreateRemoteThread_failed

datatype inject_call =
    VirtualAllocEx dword
  | WriteProcessMemory dword local_source dword
  | CreateRemoteThread dword dword
  | WaitForSingleObject
  | CloseHandle
  | VirtualFreeEx dword
  | WriteToErrorLog log_message
  | PrintStderr stderr_message

text \<open>\<open>sizeof( THREAD_ARGS )\<close> of DumpSvc.c on the 32-bit target: three pointers, 512 and
  128 characters, four \<open>BOOL\<close>s. \<open>sizeof (REMOTE_INFO)\<close> of lsadump2.h: three pointers and
  three arrays of \<open>MAX_PATH + 1 = 261\<close> characters, rounded up to a multiple of 4.\<close>

definition sizeof_THREAD_ARGS :: dword where
  "sizeof_THREAD_ARGS = 3 * 4 + 512 + 128 + 4 * 4"

definition sizeof_REMOTE_INFO :: dword where
  "sizeof_REMOTE_INFO = 796"

text \<open>\<open>InjectDLL\<close> of DumpSvc.c.\<close>

definition InjectDLL :: "system_answers \<Rightarrow> inject_call list" where
  "InjectDLL sys =
     (if OpenProcess_handle sys \<noteq> 0 then
        (if pLoadLibrary sys \<noteq> 0 \<and> pGetProcAddress sys \<noteq> 0 \<and> pFreeLibrary sys \<noteq> 0 then
           (let dwFunctionSize = marker_address sys - thunk_address sys;
                dwBytesToAlloc = dwFunctionSize + sizeof_THREAD_ARGS + 4;
                pRemoteAlloc = VirtualAllocEx_address sys
            in VirtualAllocEx dwBytesToAlloc #
               (if pRemoteAlloc \<noteq> 0 then
                  WriteProcessMemory pRemoteAlloc ArgumentBlock sizeof_THREAD_ARGS #
                  (if WriteProcessMemory_first sys then
                     WriteProcessMemory (pRemoteAlloc + sizeof_THREAD_ARGS + 4) ThunkCode
                       dwFunctionSize #
                     (if WriteProcessMemory_second sys then
                        CreateRemoteThread (pRemoteAlloc + sizeof_THREAD_ARGS + 4) pRemoteAlloc #
                        (if CreateRemoteThread_handle sys \<noteq> 0 then
                           [WaitForSingleObject, CloseHandle, VirtualFreeEx pRemoteAlloc]
                         else [WriteToErrorLog Cannot_create_LSASS_thread])
                      else [WriteToErrorLog Cannot_write_to_process_memory])
                   else [WriteToErrorLog Cannot_write_to_process_memory])
                else [WriteToErrorLog Cannot_allocate_virtual_memory]))
         else [WriteToErrorLog Cannot_load_Kernel32_functions])
      else [WriteToErrorLog Cannot_open_LSASS_process])"

text \<open>The label \<open>exit\<close> of \<open>InjectDll\<close>: close the thread handle when there is one, then
  free the remote memory.\<close>

definition InjectDll_exit :: "dword \<Rightarrow> dword \<Rightarrow> inject_call list" where
  "InjectDll_exit hRemoteThread pRemoteAlloc =
     (if hRemoteThread \<noteq> 0 then [CloseHandle] else []) @ [VirtualFreeEx pRemoteAlloc]"

text \<open>\<open>InjectDll\<close> of lsadump2.c. The process handle is its argument, and the three loader
  addresses are stored without a test.\<close>

definition InjectDll :: "system_answers \<Rightarrow> inject_call list" where
  "InjectDll sys =
     (let dwFuncSize = marker_address sys - thunk_address sys;
          dwBytesToAlloc = dwFuncSize + sizeof_REMOTE_INFO + 4;
          pRemoteAlloc = VirtualAllocEx_address sys
      in VirtualAllocEx dwBytesToAlloc #
         (if pRemoteAlloc = 0 then [PrintStderr VirtualAllocEx_failed]
          else
            WriteProcessMemory pRemoteAlloc ArgumentBlock sizeof_REMOTE_INFO #
            (if \<not> WriteProcessMemory_first sys then
               PrintStderr WriteProcessMemory_failed # InjectDll_exit 0 pRemoteAlloc
             else
               WriteProcessMemory (pRemoteAlloc + sizeof_REMOTE_INFO + 4) ThunkCode dwFuncSize #
               (if \<not> WriteProcessMemory_second sys then
                  PrintStderr WriteProcessMemory_failed # InjectDll_exit 0 pRemoteAlloc
                else
                  CreateRemoteThread (pRemoteAlloc + sizeof_REMOTE_INFO + 4) pRemoteAlloc #
                  (if CreateRemoteThread_handle sys = 0 then
                     PrintStderr CreateRemoteThread_failed # InjectDll_exit 0 pRemoteAlloc
                   else
                     WaitForSingleObject #
                     InjectDll_exit (CreateRemoteThread_handle sys) pRemoteAlloc)))))"

text \<open>The length of the thunk as both routines compute it: the distance from the thunk to
  the marker routine that follows it.\<close>

definition thunkByteLength :: "system_answers \<Rightarrow> dword" where
  "thunkByteLength sys = marker_address sys - thunk_address sys"

text \<open>What the claims say about the calls of a trace, for an argument block of \<open>sz\<close> bytes:
  every allocation has the size \<open>sz + 4 + thunkByteLength\<close>, every write is the argument
  block at the base or the thunk \<open>sz + 4\<close> bytes after it, and every thread starts at the
  copied thunk with the base as its argument.\<close>

fun call_as_specified :: "system_answers \<Rightarrow> dword \<Rightarrow> inject_call \<Rightarrow> bool" where
  "call_as_specified sys sz (VirtualAllocEx n) = (n = sz + 4 + thunkByteLength sys)"
| "call_as_specified sys sz (WriteProcessMemory dst src n) =
     (case src of
        ArgumentBlock \<Rightarrow> dst = VirtualAllocEx_address sys \<and> n = sz
      | ThunkCode \<Rightarrow> dst = VirtualAllocEx_address sys + (sz + 4) \<and> n = thunkByteLength sys)"
| "call_as_specified sys sz (CreateRemoteThread start arg) =
     (start = VirtualAllocEx_address sys + (sz + 4) \<and> arg = VirtualAllocEx_address sys)"
| "call_as_specified sys sz _ = True"

section \<open>Opening the secrets (DumpExt.c: DumpLSASecrets; dumplsa.c: DumpLsa)\<close>

text \<open>An \<open>NTSTATUS\<close> is a signed 32-bit value; the source tests \<open>nStatus < 0\<close>.\<close>

type_synonym ntstatus = "32 word"
type_synonym wchar = "16 word"

definition NT_failed :: "ntstatus \<Rightarrow> bool" where
  "NT_failed nStatus = (sint nStatus < 0)"

text \<open>The answers of the policy store: the status of \<open>LsarOpenSecret\<close> for a name buffer
  and the \<open>Length\<close> given with it, and for \<open>LsarQuerySecret\<close> the status and the bytes of the
  secret it makes \<open>lsaData\<close> point to (\<open>None\<close> when the call leaves the pointer \<open>lsaData\<close> as
  it found it).\<close>

record lsa_answers =
  LsarOpenSecret :: "wchar list \<Rightarrow> nat \<Rightarrow> ntstatus"
  LsarQuerySecret :: "wchar list \<Rightarrow> ntstatus \<times> byte list option"

text \<open>The texts \<open>DumpLsa\<close> sends down its pipe when a call fails, with the status they
  print.\<close>

datatype pipe_error =
    LsarOpenSecret_failed ntstatus
  | LsarQuerySecret_failed ntstatus

text \<open>What the two loops do for the enumerated names, in order: the calls of the policy
  store, the name and the rows written to the output, and the errors recorded (a message
  appended to ErrorLog.txt by DumpExt.c, an error text sent down the pipe by dumplsa.c).
  The last two events are those of dumplsa.c where it leaves the defined behaviour of C:
  \<open>dump_bytes\<close> called on memory that \<open>LsaFreeMemory\<close> has released, and \<open>LsaFreeMemory\<close> called
  on it again.\<close>

datatype secret_event =
    LsarOpenSecret_call "wchar list" nat
  | LsarQuerySecret_call "wchar list"
  | LsarClose_call
  | WriteName "wchar list"
  | WriteRows "string list"
  | WriteBlankLine
  | LogMessage log_message
  | SendError pipe_error
  | DumpFreedMemory
  | FreeFreedMemory

text \<open>\<open>DumpLSASecrets\<close>, after a successful open: query, write, close. The source sets
  \<open>lsaData = NULL\<close> before every query (line 491), so \<open>None\<close> is a pointer that is \<open>NULL\<close> after
  the call.\<close>

definition DumpLSASecrets_body :: "lsa_answers \<Rightarrow> wchar list \<Rightarrow> secret_event list" where
  "DumpLSASecrets_body lsa wszSecret =
     LsarQuerySecret_call wszSecret #
     (case LsarQuerySecret lsa wszSecret of (nStatus, lsaData) \<Rightarrow>
        if \<not> NT_failed nStatus then
          WriteName wszSecret #
          (case lsaData of
             Some bytes \<Rightarrow> [WriteRows (DumpSecretData bytes), WriteBlankLine]
           | None \<Rightarrow> [])
        else [LogMessage Cannot_query_LSA_Secret])
     @ [LsarClose_call]"

text \<open>The loop of \<open>DumpLSASecrets\<close> over the names \<open>RegEnumKeyW\<close> returns. After the second
  failed open the source has a bare \<open>continue\<close>.\<close>

fun DumpLSASecrets_loop :: "lsa_answers \<Rightarrow> wchar list list \<Rightarrow> secret_event list" where
  "DumpLSASecrets_loop lsa [] = []"
| "DumpLSASecrets_loop lsa (wszSecret # names) =
     (let Length = length wszSecret * 2 in
      LsarOpenSecret_call wszSecret Length #
      (if NT_failed (LsarOpenSecret lsa wszSecret Length) then
         LsarOpenSecret_call wszSecret (Length + 2) #
         (if NT_failed (LsarOpenSecret lsa wszSecret (Length + 2)) then
            DumpLSASecrets_loop lsa names
          else DumpLSASecrets_body lsa wszSecret @ DumpLSASecrets_loop lsa names)
       else DumpLSASecrets_body lsa wszSecret @ DumpLSASecrets_loop lsa names))"

text \<open>The variable \<open>lsaData\<close> of \<open>DumpLsa\<close>. The source sets it to \<open>NULL\<close> once, where it is
  declared (line 136), and never again: it keeps its value from one name to the next. It
  is \<open>NULL\<close>, or it points to the bytes of a secret, or it points to memory that
  \<open>LsaFreeMemory\<close> has released.\<close>

datatype lsa_pointer = NullPointer | Pointing "byte list" | FreedPointer

text \<open>\<open>LsaFreeMemory (lsaData)\<close>: the pointer keeps its value, which is now that of released
  memory.\<close>

definition LsaFreeMemory :: "lsa_pointer \<Rightarrow> lsa_pointer" where
  "LsaFreeMemory lsaData = (case lsaData of NullPointer \<Rightarrow> NullPointer | _ \<Rightarrow> FreedPointer)"

text \<open>\<open>DumpLsa\<close>, after a successful open (lines 221 to 245): the events, and \<open>lsaData\<close> as
  the next name finds it. The first argument \<open>lsaData\<close> is the pointer as the previous names
  left it. After a failed query nothing is released.\<close>

definition DumpLsa_body ::
  "lsa_answers \<Rightarrow> lsa_pointer \<Rightarrow> wchar list \<Rightarrow> secret_event list \<times> lsa_pointer" where
  "DumpLsa_body lsa lsaData wszSecret =
     (case LsarQuerySecret lsa wszSecret of (rc, stored) \<Rightarrow>
        (let lsaData = (case stored of Some bytes \<Rightarrow> Pointing bytes | None \<Rightarrow> lsaData) in
         if NT_failed rc then
           ([LsarQuerySecret_call wszSecret, SendError (LsarQuerySecret_failed rc),
             LsarClose_call], lsaData)
         else
           (LsarQuerySecret_call wszSecret # WriteName wszSecret #
            (case lsaData of
               NullPointer \<Rightarrow> []
             | Pointing bytes \<Rightarrow> [WriteRows (dump_bytes bytes)]
             | FreedPointer \<Rightarrow> [DumpFreedMemory, FreeFreedMemory])
            @ [LsarClose_call],
            LsaFreeMemory lsaData)))"

text \<open>The loop of \<open>DumpLsa\<close> from a given value of \<open>lsaData\<close>. After the second failed open
  the source sends \<open>"LsarOpenSecret failed : 0x%08X"\<close> with the status, then continues.\<close>

fun DumpLsa_names :: "lsa_answers \<Rightarrow> lsa_pointer \<Rightarrow> wchar list list \<Rightarrow> secret_event list" where
  "DumpLsa_names lsa lsaData [] = []"
| "DumpLsa_names lsa lsaData (wszSecret # names) =
     (let Length = length wszSecret * 2 in
      LsarOpenSecret_call wszSecret Length #
      (if NT_failed (LsarOpenSecret lsa wszSecret Length) then
         LsarOpenSecret_call wszSecret (Length + 2) #
         (if NT_failed (LsarOpenSecret lsa wszSecret (Length + 2)) then
            SendError (LsarOpenSecret_failed (LsarOpenSecret lsa wszSecret (Length + 2))) #
            DumpLsa_names lsa lsaData names
          else fst (DumpLsa_body lsa lsaData wszSecret) @
               DumpLsa_names lsa (snd (DumpLsa_body lsa lsaData wszSecret)) names)
       else fst (DumpLsa_body lsa lsaData wszSecret) @
            DumpLsa_names lsa (snd (DumpLsa_body lsa lsaData wszSecret)) names))"

text \<open>The loop of \<open>DumpLsa\<close> over the names \<open>RegEnumKeyW\<close> returns: \<open>lsaData\<close> is \<open>NULL\<close> when it
  starts.\<close>

definition DumpLsa_loop :: "lsa_answers \<Rightarrow> wchar list list \<Rightarrow> secret_event list" where
  "DumpLsa_loop lsa names = DumpLsa_names lsa NullPointer names"

text \<open>The events that open a secret, and the events that record an error.\<close>

definition is_open_call :: "secret_event \<Rightarrow> bool" where
  "is_open_call e = (case e of LsarOpenSecret_call n l \<Rightarrow> True | _ \<Rightarrow> False)"

definition is_error_record :: "secret_event \<Rightarrow> bool" where
  "is_error_record e = (case e of LogMessage m \<Rightarrow> True | SendError p \<Rightarrow> True | _ \<Rightarrow> False)"

text \<open>A policy store in which no secret can be opened or queried: every call answers
  \<open>STATUS_OBJECT_NAME_NOT_FOUND\<close>.\<close>

definition STATUS_OBJECT_NAME_NOT_FOUND :: ntstatus where
  "STATUS_OBJECT_NAME_NOT_FOUND = 0xC0000034"

definition no_secret_opens :: lsa_answers where
  "no_secret_opens =
     \<lparr>LsarOpenSecret = (\<lambda>name len. STATUS_OBJECT_NAME_NOT_FOUND),
      LsarQuerySecret = (\<lambda>name. (STATUS_OBJECT_NAME_NOT_FOUND, None))\<rparr>"

text \<open>A policy store with two secrets: the query of \<open>A\<close> stores a pointer to four bytes, the
  query of \<open>B\<close> succeeds and stores nothing.\<close>

definition two_secrets :: lsa_answers where
  "two_secrets =
     \<lparr>LsarOpenSecret = (\<lambda>name len. 0),
      LsarQuerySecret = (\<lambda>name. if name = [0x41] then (0, Some [0x70, 0x61, 0x73, 0x73])
                                 else (0, None))\<rparr>"

section \<open>Account hashes (DumpExt.c: DumpPWHashes, DumpPWHistoryHashes)\<close>

text \<open>An \<open>unsigned\<close> read from four consecutive bytes of memory on the little-endian x86
  target, and the element \<open>HashData[i]\<close> of \<open>unsigned HashData[]\<close> whose bytes are
  \<open>bHashData\<close>.\<close>

definition le32 :: "byte \<Rightarrow> byte \<Rightarrow> byte \<Rightarrow> byte \<Rightarrow> dword" where
  "le32 b0 b1 b2 b3 =
     ucast b0 OR push_bit 8 (ucast b1) OR push_bit 16 (ucast b2) OR push_bit 24 (ucast b3)"

definition HashData_at :: "byte list \<Rightarrow> nat \<Rightarrow> dword" where
  "HashData_at bHashData i =
     le32 (bHashData ! (4 * i)) (bHashData ! (4 * i + 1)) (bHashData ! (4 * i + 2))
          (bHashData ! (4 * i + 3))"

definition NO_PASSWORD :: string where
  "NO_PASSWORD = ''NO PASSWORD*********************''"

text \<open>The loop \<open>for ( j = lo; j < hi; j++ ) { sprintf( p, "%02X", bHashData[j] ); p += 2; }\<close>.\<close>

definition hex_loop :: "byte list \<Rightarrow> nat \<Rightarrow> nat \<Rightarrow> string" where
  "hex_loop bHashData lo hi = concat (map (\<lambda>j. fmt_02X (bHashData ! j)) [lo..<hi])"

text \<open>The two blocks that fill \<open>szLMHash\<close> and \<open>szNTHash\<close> from the 32 bytes of \<open>HashData\<close>.
  The source has them three times with the same text (up to the name of the loop variable):
  in \<open>DumpPWHashes\<close>, and in \<open>DumpPWHistoryHashes\<close> for the current hash and for each
  history slot.\<close>

definition szLMHash_of :: "byte list \<Rightarrow> string" where
  "szLMHash_of bHashData =
     (if HashData_at bHashData 4 = 0x35b4d3aa \<and> HashData_at bHashData 5 = 0xee0414b5 \<and>
         HashData_at bHashData 6 = 0x35b4d3aa \<and> HashData_at bHashData 7 = 0xee0414b5
      then NO_PASSWORD
      else hex_loop bHashData 16 32)"

definition szNTHash_of :: "byte list \<Rightarrow> string" where
  "szNTHash_of bHashData =
     (if HashData_at bHashData 0 = 0xe0cfd631 \<and> HashData_at bHashData 1 = 0x31e96ad1 \<and>
         HashData_at bHashData 2 = 0xd7593cb7 \<and> HashData_at bHashData 3 = 0xc089c0e0
      then NO_PASSWORD
      else hex_loop bHashData 0 16)"

text \<open>One enumerated account with the answers of the account store for it: the contents of
  \<open>szUsername\<close> after \<open>wcstombs\<close>, the statuses of \<open>SamrOpenUser\<close>,
  \<open>SamrQueryInformationUser\<close> and \<open>SamIGetPrivateData\<close>, the bytes at \<open>pHashData\<close> of the
  password query, and the private data blob (its length is the returned \<open>dwSize\<close>).\<close>

record sam_user =
  Rid :: dword
  szUsername :: string
  SamrOpenUser_status :: ntstatus
  SamrQueryInformationUser_status :: ntstatus
  pHashData :: "byte list"
  SamIGetPrivateData_status :: ntstatus
  private_data :: "byte list"

text \<open>The answers outside the loop over the accounts, the accounts the paged enumeration
  delivers in order, and the two RID-keyed decode primitives of advapi32.dll, which
  return the 16 bytes they write, or \<open>None\<close> for a negative status.\<close>

record sam_answers =
  sam_functions_loaded :: bool
  history_functions_loaded :: bool
  LsaOpenPolicy_status :: ntstatus
  LsaQueryInformationPolicy_status :: ntstatus
  SamIConnect_status :: ntstatus
  SamrOpenDomain_status :: ntstatus
  users :: "sam_user list"
  SystemFunction025 :: "byte list \<Rightarrow> dword \<Rightarrow> byte list option"
  SystemFunction027 :: "byte list \<Rightarrow> dword \<Rightarrow> byte list option"

text \<open>What the two routines do: the arguments of the \<open>fprintf\<close> of an account line
  (\<open>"%s:%d:%s:%s:::\\n"\<close>: name, RID, LM text, NT text) and of a history line
  (\<open>"%s_hist_%d:%d:%s:%s:::\\n"\<close>: name, slot, RID, LM text, NT text), a history slot that writes
  nothing because a decode primitive failed, a history slot whose ciphertext lies beyond
  the end of the blob, and a message appended to the error log.\<close>

datatype sam_event =
    Fprintf_hash string dword string string
  | Fprintf_history string nat dword string string
  | SlotNotDecoded nat
  | SlotBeyondBlob nat
  | SamLog log_message



text \<open>The 16 bytes a decode primitive reads at an offset of the private data blob.\<close>

definition blob_read :: "byte list \<Rightarrow> nat \<Rightarrow> byte list option" where
  "blob_read blob off = (if off + 16 \<le> length blob then Some (take 16 (drop off blob)) else None)"

text \<open>The values of \<open>j\<close> for which the body of \<open>for ( j = 1; j < ( dwHashes + 1 ); j++ )\<close>
  runs.\<close>

function history_loop :: "nat \<Rightarrow> nat \<Rightarrow> nat list" where
  "history_loop j dwHashes =
     (if j < dwHashes + 1 then j # history_loop (j + 1) dwHashes else [])"
  by pat_completeness auto
termination
  by (relation "measure (\<lambda>(j, dwHashes). dwHashes + 1 - j)") auto

text \<open>The history slots \<open>DumpPWHistoryHashes\<close> goes through for one account, from the
  status and the blob of \<open>SamIGetPrivateData\<close>. \<open>SAM_HISTORY_COUNT_OFFSET\<close> and
  \<open>SAM_HISTORY_NTLM_OFFSET\<close> are both \<open>0x3C\<close>.\<close>

definition history_slots_of :: "ntstatus \<Rightarrow> byte list \<Rightarrow> nat list" where
  "history_slots_of nStatus blob =
     (let dwSize = length blob in
      if \<not> NT_failed nStatus \<and> dwSize > 0x3c then
        (let dwHashes = unat (blob ! 0x3C) div 16;
             dwOffset = unat (blob ! 0x3C)
         in if dwHashes > 0 \<and> dwSize > dwOffset + 0x64 then history_loop 1 dwHashes else [])
      else [])"

text \<open>The body of the loop for slot \<open>j\<close>: \<open>pHashDataHistory\<close> has been advanced \<open>j\<close> times by
  \<open>0x10\<close>; \<open>SystemFunction025\<close> decodes the 16 bytes at \<open>+ 0x44\<close> into \<open>HashData[0..15]\<close>,
  \<open>SystemFunction027\<close> the 16 bytes at \<open>+ 0x44 + dwOffset\<close> into \<open>HashData[16..31]\<close>.\<close>

definition history_slot :: "sam_answers \<Rightarrow> sam_user \<Rightarrow> nat \<Rightarrow> sam_event" where
  "history_slot sam u j =
     (let blob = private_data u; dwOffset = unat (blob ! 0x3C) in
      case blob_read blob (0x10 * j + 0x44) of
        None \<Rightarrow> SlotBeyondBlob j
      | Some c1 \<Rightarrow>
         (case SystemFunction025 sam c1 (Rid u) of
            None \<Rightarrow> SlotNotDecoded j
          | Some d1 \<Rightarrow>
             (case blob_read blob (0x10 * j + 0x44 + dwOffset) of
                None \<Rightarrow> SlotBeyondBlob j
              | Some c2 \<Rightarrow>
                 (case SystemFunction027 sam c2 (Rid u) of
                    None \<Rightarrow> SlotNotDecoded j
                  | Some d2 \<Rightarrow>
                      (let HashData = d1 @ d2
                       in Fprintf_history (szUsername u) j (Rid u)
                            (szLMHash_of HashData) (szNTHash_of HashData))))))"

definition DumpPWHistoryHashes_user :: "sam_answers \<Rightarrow> sam_user \<Rightarrow> sam_event list" where
  "DumpPWHistoryHashes_user sam u =
     (if \<not> NT_failed (SamrOpenUser_status u) then
        (if \<not> NT_failed (SamrQueryInformationUser_status u) then
           (let HashData = take 32 (pHashData u)
            in Fprintf_hash (szUsername u) (Rid u) (szLMHash_of HashData) (szNTHash_of HashData) #
               map (history_slot sam u)
                 (history_slots_of (SamIGetPrivateData_status u) (private_data u)))
         else [])
      else [])"

definition DumpPWHistoryHashes :: "sam_answers \<Rightarrow> sam_event list" where
  "DumpPWHistoryHashes sam =
     (if history_functions_loaded sam then
        (if \<not> NT_failed (LsaOpenPolicy_status sam) then
           (if \<not> NT_failed (LsaQueryInformationPolicy_status sam) then
              (if \<not> NT_failed (SamIConnect_status sam) then
                 (if \<not> NT_failed (SamrOpenDomain_status sam) then
                    concat (map (DumpPWHistoryHashes_user sam) (users sam))
                  else [SamLog Cannot_open_SAM])
               else [SamLog Cannot_connect_to_SAM])
            else [SamLog Cannot_query_LSA_information_policy])
         else [SamLog Cannot_open_LSA_policy])
      else [SamLog Cannot_load_SAM_functions])"

text \<open>The published hashes of the empty password: the LM hash
  \<open>AAD3B435B51404EEAAD3B435B51404EE\<close> and the NT hash \<open>31D6CFE0D16AE931B73C59D7E0C089C0\<close>.\<close>

definition EMPTY_LM_HASH :: "byte list" where
  "EMPTY_LM_HASH = [0xAA, 0xD3, 0xB4, 0x35, 0xB5, 0x14, 0x04, 0xEE,
                    0xAA, 0xD3, 0xB4, 0x35, 0xB5, 0x14, 0x04, 0xEE]"

definition EMPTY_NT_HASH :: "byte list" where
  "EMPTY_NT_HASH = [0x31, 0xD6, 0xCF, 0xE0, 0xD1, 0x6A, 0xE9, 0x31,
                    0xB7, 0x3C, 0x59, 0xD7, 0xE0, 0xC0, 0x89, 0xC0]"

text \<open>The events that record an error.\<close>

definition is_SamLog :: "sam_event \<Rightarrow> bool" where
  "is_SamLog e = (case e of SamLog m \<Rightarrow> True | _ \<Rightarrow> False)"

text \<open>An example account for the theorems below: the built-in administrator with an empty
  password, and a private data blob of 200 bytes whose byte at \<open>0x3C\<close> is \<open>0x20\<close>, with the
  two ciphertexts of slot 1 at the offsets \<open>0x54\<close> and \<open>0x74\<close>. In the example the decode
  primitives hand the ciphertext back unchanged.\<close>

definition example_blob :: "byte list" where
  "example_blob =
     replicate 60 0 @ [0x20] @ replicate 23 0 @ EMPTY_NT_HASH @ replicate 16 0x11 @
     EMPTY_LM_HASH @ replicate 68 0"

definition example_user :: sam_user where
  "example_user =
     \<lparr>Rid = 500, szUsername = ''Administrator'', SamrOpenUser_status = 0,
      SamrQueryInformationUser_status = 0, pHashData = EMPTY_NT_HASH @ EMPTY_LM_HASH,
      SamIGetPrivateData_status = 0, private_data = example_blob\<rparr>"

definition example_sam :: sam_answers where
  "example_sam =
     \<lparr>sam_functions_loaded = True, history_functions_loaded = True,
      LsaOpenPolicy_status = 0, LsaQueryInformationPolicy_status = 0, SamIConnect_status = 0,
      SamrOpenDomain_status = 0, users = [example_user],
      SystemFunction025 = (\<lambda>ciphertext rid. Some ciphertext),
      SystemFunction027 = (\<lambda>ciphertext rid. Some ciphertext)\<rparr>"

section \<open>The digest and the stream cipher (md5.h, rc4.h)\<close>

text \<open>Modelled from the spec: md5.c (\<open>md5_starts\<close>, \<open>md5_update\<close>, \<open>md5_finish\<close>) is not
  under src/; the specification names the digest as MD5. \<open>MD5\<close> is the digest of
  RFC 1321 of a list of bytes. The routines of DumpExt.c below take the digest as a
  parameter, and this instance is what they are run with on concrete inputs.\<close>

definition md5_T :: "dword list" where
  "md5_T =
    [0xd76aa478, 0xe8c7b756, 0x242070db, 0xc1bdceee, 0xf57c0faf, 0x4787c62a, 0xa8304613,
     0xfd469501, 0x698098d8, 0x8b44f7af, 0xffff5bb1, 0x895cd7be, 0x6b901122, 0xfd987193,
     0xa679438e, 0x49b40821, 0xf61e2562, 0xc040b340, 0x265e5a51, 0xe9b6c7aa, 0xd62f105d,
     0x02441453, 0xd8a1e681, 0xe7d3fbc8, 0x21e1cde6, 0xc33707d6, 0xf4d50d87, 0x455a14ed,
     0xa9e3e905, 0xfcefa3f8, 0x676f02d9, 0x8d2a4c8a, 0xfffa3942, 0x8771f681, 0x6d9d6122,
     0xfde5380c, 0xa4beea44, 0x4bdecfa9, 0xf6bb4b60, 0xbebfbc70, 0x289b7ec6, 0xeaa127fa,
     0xd4ef3085, 0x04881d05, 0xd9d4d039, 0xe6db99e5, 0x1fa27cf8, 0xc4ac5665, 0xf4292244,
     0x432aff97, 0xab9423a7, 0xfc93a039, 0x655b59c3, 0x8f0ccc92, 0xffeff47d, 0x85845dd1,
     0x6fa87e4f, 0xfe2ce6e0, 0xa3014314, 0x4e0811a1, 0xf7537e82, 0xbd3af235, 0x2ad7d2bb,
     0xeb86d391]"

definition md5_shift :: "nat list" where
  "md5_shift =
    [7, 12, 17, 22, 7, 12, 17, 22, 7, 12, 17, 22, 7, 12, 17, 22,
     5, 9, 14, 20, 5, 9, 14, 20, 5, 9, 14, 20, 5, 9, 14, 20,
     4, 11, 16, 23, 4, 11, 16, 23, 4, 11, 16, 23, 4, 11, 16, 23,
     6, 10, 15, 21, 6, 10, 15, 21, 6, 10, 15, 21, 6, 10, 15, 21]"

type_synonym md5_state = "dword \<times> dword \<times> dword \<times> dword"

definition md5_step :: "dword list \<Rightarrow> md5_state \<Rightarrow> nat \<Rightarrow> md5_state" where
  "md5_step M st i =
     (case st of (a, b, c, d) \<Rightarrow>
        let f = (if i < 16 then (b AND c) OR (NOT b AND d)
                 else if i < 32 then (d AND b) OR (NOT d AND c)
                 else if i < 48 then b XOR c XOR d
                 else c XOR (b OR NOT d));
            g = (if i < 16 then i
                 else if i < 32 then (5 * i + 1) mod 16
                 else if i < 48 then (3 * i + 5) mod 16
                 else (7 * i) mod 16)
        in (d, b + word_rotl (md5_shift ! i) (a + f + md5_T ! i + M ! g), b, c))"

definition md5_block :: "md5_state \<Rightarrow> byte list \<Rightarrow> md5_state" where
  "md5_block st block =
     (let M = map (\<lambda>i. le32 (block ! (4 * i)) (block ! (4 * i + 1)) (block ! (4 * i + 2))
                         (block ! (4 * i + 3))) [0..<16]
      in case (st, foldl (md5_step M) st [0..<64]) of
           ((a, b, c, d), (a', b', c', d')) \<Rightarrow> (a + a', b + b', c + c', d + d'))"

function md5_blocks :: "md5_state \<Rightarrow> byte list \<Rightarrow> md5_state" where
  "md5_blocks st bytes =
     (if length bytes < 64 then st
      else md5_blocks (md5_block st (take 64 bytes)) (drop 64 bytes))"
  by pat_completeness auto
termination
  by (relation "measure (\<lambda>(st, bytes). length bytes)") auto

definition le_bytes :: "nat \<Rightarrow> 64 word \<Rightarrow> byte list" where
  "le_bytes n w = map (\<lambda>i. ucast (drop_bit (8 * i) w)) [0..<n]"

definition md5_pad :: "byte list \<Rightarrow> byte list" where
  "md5_pad msg =
     msg @ [0x80] @ replicate ((119 - length msg mod 64) mod 64) 0 @ le_bytes 8 (of_nat (8 * length msg))"

definition MD5 :: "byte list \<Rightarrow> byte list" where
  "MD5 msg =
     (case md5_blocks (0x67452301, 0xefcdab89, 0x98badcfe, 0x10325476) (md5_pad msg) of
        (a, b, c, d) \<Rightarrow> concat (map (\<lambda>w. le_bytes 4 (ucast w)) [a, b, c, d]))"

text \<open>Modelled from the spec: rc4.c (\<open>rc4_setup\<close>, \<open>rc4_crypt\<close>) is not under src/; the
  specification names the cipher as the standard variable-key stream cipher RC4. \<open>RC4\<close>
  is the key schedule for a key, followed by the encryption of a list of bytes with the
  key stream. The routines of DumpExt.c below take the cipher as a parameter, and this
  instance is what they are run with on concrete inputs.\<close>

function rc4_setup_loop :: "byte list \<Rightarrow> nat \<Rightarrow> byte \<Rightarrow> nat \<Rightarrow> byte list \<Rightarrow> byte list" where
  "rc4_setup_loop key i j k m =
     (if i < 256 then
        (let a = m ! i;
             j' = j + a + key ! k;
             m' = (m[i := m ! unat j'])[unat j' := a];
             k' = (if k + 1 \<ge> length key then 0 else k + 1)
         in rc4_setup_loop key (i + 1) j' k' m')
      else m)"
  by pat_completeness auto
termination
  by (relation "measure (\<lambda>(key, i, j, k, m). 256 - i)") auto

fun rc4_crypt_loop :: "byte \<times> byte \<times> byte list \<Rightarrow> byte list \<Rightarrow> byte list" where
  "rc4_crypt_loop (x, y, m) [] = []"
| "rc4_crypt_loop (x, y, m) (d # data) =
     (let x' = x + 1;
          a = m ! unat x';
          y' = y + a;
          b = m ! unat y';
          m' = (m[unat x' := b])[unat y' := a]
      in (d XOR m' ! unat (a + b)) # rc4_crypt_loop (x', y', m') data)"

definition RC4 :: "byte list \<Rightarrow> byte list \<Rightarrow> byte list" where
  "RC4 key data = rc4_crypt_loop (0, 0, rc4_setup_loop key 0 0 0 (map of_nat [0..<256])) data"

section \<open>The cached logon records (DumpExt.c: DumpPWCache)\<close>

text \<open>
  The part of \<open>DumpPWCache\<close> inside the loop over the registry values \<open>NL$1\<close>, \<open>NL$2\<close>, ...
  The inputs are the bytes of the secret \<open>NL$KM\<close> at \<open>pLsaKey\<close>, the contents of the
  4096-byte buffer \<open>bCacheVal\<close> after \<open>RegQueryValueEx\<close> has stored a value in it, and the
  size \<open>dwSize\<close> of that value. The digest and the cipher are parameters: \<open>md5_digest\<close> takes the
  bytes fed to one context between \<open>md5_starts\<close> and \<open>md5_finish\<close> and returns the digest;
  \<open>rc4_crypt\<close> takes the key given to \<open>rc4_setup\<close> and the bytes \<open>rc4_crypt\<close> works on and returns
  the bytes it leaves in their place.

  Where the source leaves the defined behaviour of C, the model returns a fault:
  \<^item> \<open>KeyReadBeyondSecret\<close>: the loop \<open>for ( j = 0; j < 64; j++ )\<close> reads \<open>pLsaKey[j]\<close> beyond the
    bytes of the secret;
  \<^item> \<open>CryptLengthWraps\<close>: \<open>dwSize - 96\<close> wraps around as a \<open>DWORD\<close> (what \<open>rc4_crypt\<close> does with
    that length is not modelled);
  \<^item> \<open>NameBufferOverflow\<close>: the terminating NUL of a name is written at index 128 of a
    128-character array.
\<close>

datatype cache_fault = KeyReadBeyondSecret | CryptLengthWraps | NameBufferOverflow

text \<open>The loop that fills \<open>bKey1\<close> and \<open>bKey2\<close>; \<open>k_ipad\<close> and \<open>k_opad\<close> hold 64 times \<open>0x36\<close> and
  \<open>0x5c\<close>.\<close>

function pad_loop ::
  "byte list \<Rightarrow> nat \<Rightarrow> byte list \<times> byte list \<Rightarrow> (byte list \<times> byte list) option" where
  "pad_loop pLsaKey j (bKey1, bKey2) =
     (if j < 64 then
        (if j < length pLsaKey then
           pad_loop pLsaKey (j + 1)
             (bKey1 @ [pLsaKey ! j XOR 0x36], bKey2 @ [pLsaKey ! j XOR 0x5c])
         else None)
      else Some (bKey1, bKey2))"
  by pat_completeness auto
termination
  by (relation "measure (\<lambda>(pLsaKey, j, acc). 64 - j)") auto

text \<open>Lines 300 to 317: the two digests and the decryption in place. The result is
  \<open>bDigest\<close> as given to \<open>rc4_setup\<close>, and \<open>bCacheVal\<close> after \<open>rc4_crypt\<close>.\<close>

definition DumpPWCache_decrypt ::
  "(byte list \<Rightarrow> byte list) \<Rightarrow> (byte list \<Rightarrow> byte list \<Rightarrow> byte list) \<Rightarrow>
   byte list \<Rightarrow> byte list \<Rightarrow> nat \<Rightarrow> cache_fault + (byte list \<times> byte list)" where
  "DumpPWCache_decrypt md5_digest rc4_crypt pLsaKey bCacheVal dwSize =
     (case pad_loop pLsaKey 0 ([], []) of
        None \<Rightarrow> Inl KeyReadBeyondSecret
      | Some (bKey1, bKey2) \<Rightarrow>
          (let bDigest = md5_digest (bKey1 @ take 16 (drop 64 bCacheVal));
               bDigest = md5_digest (bKey2 @ bDigest)
           in if dwSize < 96 then Inl CryptLengthWraps
              else Inr (bDigest,
                        take 96 bCacheVal @
                        rc4_crypt bDigest (take (dwSize - 96) (drop 96 bCacheVal)) @
                        drop dwSize bCacheVal)))"

text \<open>The loop \<open>for ( j = 0; j < len; j = j + 2 ) { sz[k] = bCacheVal[base + j]; k++; }\<close>: the
  characters it stores.\<close>

function copy_loop :: "byte list \<Rightarrow> nat \<Rightarrow> nat \<Rightarrow> nat \<Rightarrow> byte list" where
  "copy_loop bCacheVal base len j =
     (if j < len then bCacheVal ! (base + j) # copy_loop bCacheVal base len (j + 2) else [])"
  by pat_completeness auto
termination
  by (relation "measure (\<lambda>(bCacheVal, base, len, j). len - j)") auto

text \<open>The line written to PWCache.txt: the arguments of
  \<open>"%s:"\<close>, sixteen \<open>"%02X"\<close> and \<open>":%s:%s\n"\<close>.\<close>

record cache_entry =
  username :: string
  verifier :: string
  domain :: string
  dnsDomain :: string

definition dwJoke0 :: "nat \<Rightarrow> nat" where
  "dwJoke0 dwUsername = 2 * ((dwUsername div 2) mod 2)"

definition dwJoke1 :: "nat \<Rightarrow> nat" where
  "dwJoke1 dwDomain = 2 * ((dwDomain div 2) mod 2)"

text \<open>Lines 319 to 382: the three names and the verifier, read from the buffer after the
  decryption.\<close>

definition DumpPWCache_extract ::
  "byte list \<Rightarrow> nat \<Rightarrow> nat \<Rightarrow> nat \<Rightarrow> cache_fault + cache_entry" where
  "DumpPWCache_extract bCacheVal dwUsername dwDomain dwDNSDomain =
     (let szUsername = copy_loop bCacheVal 168 dwUsername 0;
          szDomain = copy_loop bCacheVal (168 + dwUsername + dwJoke0 dwUsername) dwDomain 0;
          szDNSDomain =
            copy_loop bCacheVal
              (168 + dwUsername + dwJoke0 dwUsername + dwDomain + dwJoke1 dwDomain) dwDNSDomain 0
      in if length szUsername \<ge> 128 \<or> length szDomain \<ge> 128 \<or> length szDNSDomain \<ge> 128
         then Inl NameBufferOverflow
         else Inr \<lparr>username = c_string szUsername,
                   verifier = concat (map (\<lambda>j. fmt_02X (bCacheVal ! (96 + j))) [0..<16]),
                   domain = c_string szDomain,
                   dnsDomain = c_string szDNSDomain\<rparr>)"

text \<open>One pass of the loop body after a successful \<open>RegQueryValueEx\<close>: the buffer it leaves
  and the entry it writes, if any.\<close>

definition DumpPWCache_record ::
  "(byte list \<Rightarrow> byte list) \<Rightarrow> (byte list \<Rightarrow> byte list \<Rightarrow> byte list) \<Rightarrow>
   byte list \<Rightarrow> byte list \<Rightarrow> nat \<Rightarrow> cache_fault + (byte list \<times> cache_entry option)" where
  "DumpPWCache_record md5_digest rc4_crypt pLsaKey bCacheVal dwSize =
     (if dwSize \<noteq> 0 then
        (let dwUsername = unat (bCacheVal ! 0);
             dwDomain = unat (bCacheVal ! 2);
             dwDNSDomain = unat (bCacheVal ! 60)
         in if dwUsername \<noteq> 0 then
              (case DumpPWCache_decrypt md5_digest rc4_crypt pLsaKey bCacheVal dwSize of
                 Inl fault \<Rightarrow> Inl fault
               | Inr (bDigest, bCacheVal') \<Rightarrow>
                   (case DumpPWCache_extract bCacheVal' dwUsername dwDomain dwDNSDomain of
                      Inl fault \<Rightarrow> Inl fault
                    | Inr entry \<Rightarrow> Inr (bCacheVal', Some entry)))
            else Inr (bCacheVal, None))
      else Inr (bCacheVal, None))"

text \<open>The loop \<open>for ( i = 1; TRUE; i++ )\<close> over the values \<open>NL$1\<close>, \<open>NL$2\<close>, ... of the registry
  key: \<open>None\<close> is a name that is absent, and a value longer than the buffer makes
  \<open>RegQueryValueEx\<close> fail as well; both end the loop. A value is stored at the start of
  the buffer, whose other bytes stay as they were. The result has one element per value
  gone through: a fault (after which nothing is modelled), or the entry written, or
  \<open>None\<close> for a value that is passed over.\<close>

fun DumpPWCache_loop ::
  "(byte list \<Rightarrow> byte list) \<Rightarrow> (byte list \<Rightarrow> byte list \<Rightarrow> byte list) \<Rightarrow>
   byte list \<Rightarrow> byte list \<Rightarrow> byte list option list \<Rightarrow> (cache_fault + cache_entry option) list" where
  "DumpPWCache_loop md5_digest rc4_crypt pLsaKey bCacheVal [] = []"
| "DumpPWCache_loop md5_digest rc4_crypt pLsaKey bCacheVal (None # nl) = []"
| "DumpPWCache_loop md5_digest rc4_crypt pLsaKey bCacheVal (Some v # nl) =
     (if length v > 4096 then []
      else
        (case DumpPWCache_record md5_digest rc4_crypt pLsaKey (v @ drop (length v) bCacheVal) (length v) of
           Inl fault \<Rightarrow> [Inl fault]
         | Inr (bCacheVal', entry) \<Rightarrow>
             Inr entry # DumpPWCache_loop md5_digest rc4_crypt pLsaKey bCacheVal' nl))"

text \<open>The construction the specification names (HMAC of RFC 2104 with the digest \<open>H\<close> and
  blocks of 64 bytes, for a key \<open>K\<close> of at most 64 bytes): the key is padded with zero bytes
  to 64 bytes and XOR-ed with \<open>0x36\<close> for the inner pad and with \<open>0x5c\<close> for the outer pad.\<close>

definition hmac_pad :: "byte \<Rightarrow> byte list \<Rightarrow> byte list" where
  "hmac_pad c K = map (\<lambda>b. b XOR c) (K @ replicate (64 - length K) 0)"

definition hmac :: "(byte list \<Rightarrow> byte list) \<Rightarrow> byte list \<Rightarrow> byte list \<Rightarrow> byte list" where
  "hmac H K text = H (hmac_pad 0x5c K @ H (hmac_pad 0x36 K @ text))"

text \<open>The buffer the specification describes after its step 4: the first 96 bytes as they
  were, the bytes from 96 to the end of the record decrypted with the session key, and the
  bytes of the buffer behind the record as they were.\<close>

definition decrypted ::
  "(byte list \<Rightarrow> byte list) \<Rightarrow> (byte list \<Rightarrow> byte list \<Rightarrow> byte list) \<Rightarrow>
   byte list \<Rightarrow> byte list \<Rightarrow> nat \<Rightarrow> byte list" where
  "decrypted md5_digest rc4_crypt K record n =
     take 96 record @
     rc4_crypt (hmac md5_digest (take 64 K) (take 16 (drop 64 record))) (take (n - 96) (drop 96 record)) @
     drop n record"

text \<open>An example: a master key of 64 bytes, and a record of 188 bytes made for it, with the
  username length 8, the domain length 4 and the DNS domain length 6 in its header, the
  16 bytes \<open>C0 .. CF\<close> at offset 64, and 92 encrypted bytes from offset 96. The buffer
  \<open>bCacheVal\<close> holds \<open>0xCC\<close> in every byte before the record is stored in it.\<close>

definition example_key :: "byte list" where
  "example_key = map of_nat [0..<64]"

definition example_header :: "byte list" where
  "example_header =
    [0x08, 0x00, 0x04, 0x00, 0x00, 0x00, 0x00, 0x00, 0x00, 0x00, 0x00, 0x00,
     0x00, 0x00, 0x00, 0x00, 0x00, 0x00, 0x00, 0x00, 0x00, 0x00, 0x00, 0x00,
     0x00, 0x00, 0x00, 0x00, 0x00, 0x00, 0x00, 0x00, 0x00, 0x00, 0x00, 0x00,
     0x00, 0x00, 0x00, 0x00, 0x00, 0x00, 0x00, 0x00, 0x00, 0x00, 0x00, 0x00,
     0x00, 0x00, 0x00, 0x00, 0x00, 0x00, 0x00, 0x00, 0x00, 0x00, 0x00, 0x00,
     0x06, 0x00, 0x00, 0x00, 0xC0, 0xC1, 0xC2, 0xC3, 0xC4, 0xC5, 0xC6, 0xC7,
     0xC8, 0xC9, 0xCA, 0xCB, 0xCC, 0xCD, 0xCE, 0xCF, 0x00, 0x00, 0x00, 0x00,
     0x00, 0x00, 0x00, 0x00, 0x00, 0x00, 0x00, 0x00, 0x00, 0x00, 0x00, 0x00]"

definition example_ciphertext :: "byte list" where
  "example_ciphertext =
    [0xE9, 0x2E, 0x0C, 0xAF, 0x16, 0x54, 0x98, 0x8B, 0xC7, 0x4A, 0x63, 0xFB,
     0xE1, 0x6C, 0x34, 0xFB, 0x6C, 0x21, 0x89, 0x96, 0xD1, 0x24, 0x22, 0x21,
     0x5B, 0x57, 0xF6, 0x02, 0x08, 0x9F, 0x7E, 0x70, 0x30, 0x06, 0x07, 0xC8,
     0xFC, 0x30, 0x82, 0x4F, 0x3C, 0xA6, 0x5D, 0xCA, 0xF1, 0xFD, 0x68, 0x8D,
     0xEC, 0xFC, 0x2E, 0x36, 0xD5, 0x25, 0xC4, 0x83, 0x36, 0x51, 0x83, 0x91,
     0x16, 0xF8, 0xEE, 0x0E, 0x95, 0x38, 0x03, 0x49, 0xDB, 0xE8, 0xEE, 0x28,
     0xB7, 0x6C, 0x48, 0xE9, 0x76, 0x44, 0xCE, 0x32, 0x60, 0xDA, 0x14, 0xEC,
     0x36, 0xC0, 0xD8, 0x26, 0x5E, 0x52, 0xF8, 0xB0]"

definition example_record :: "byte list" where
  "example_record = example_header @ example_ciphertext"

definition example_buffer :: "byte list" where
  "example_buffer = example_record @ replicate (4096 - 188) 0xCC"

text \<open>The 92 bytes the example is the encryption of: the verifier \<open>10 .. 1F\<close>, 56 zero bytes,
  \<open>user\<close>, \<open>AD\<close> and \<open>x.y\<close> in UTF-16, and two zero bytes.\<close>

definition example_plaintext :: "byte list" where
  "example_plaintext =
     map of_nat [16..<32] @ replicate 56 0 @
     [0x75, 0x00, 0x73, 0x00, 0x65, 0x00, 0x72, 0x00, 0x41, 0x00, 0x44, 0x00,
      0x78, 0x00, 0x2E, 0x00, 0x79, 0x00] @ replicate 2 0"

section \<open>Properties of the hex dump\<close>

lemma IsReadableChar_eq: "IsReadableChar = (\<lambda>n. 32 \<le> n \<and> n \<le> 126)"
  by (auto simp: IsReadableChar_def fun_eq_iff)

lemma myisprint_eq: "myisprint = (\<lambda>n. 32 \<le> n \<and> n \<le> 126)"
  by (auto simp: myisprint_def fun_eq_iff)

lemma readable_byte: "(32 \<le> uint (b::byte) \<and> uint b \<le> 126) = (0x20 \<le> b \<and> b \<le> 0x7E)"
  by (simp add: word_le_def)

lemma fmt_c_46: "fmt_c 46 = CHR ''.''"
proof -
  have "char_of (46::nat) = CHR ''.''" by code_simp
  then show ?thesis by (simp add: fmt_c_def)
qed

lemma last_row_loop_eq:
  "last_row_loop r p (d, t) =
     (d @ concat (map (\<lambda>b. CHR '' '' # fmt_02X b) p),
      t @ map (\<lambda>b. if r (uint b) then b else 46) p)"
  by (induction p arbitrary: d t) auto

lemma c_string_readable:
  assumes r: "r = (\<lambda>n. 32 \<le> n \<and> n \<le> 126)"
  shows "c_string (map (\<lambda>b. if r (uint b) then b else 46) p) = map ascii_or_dot p"
proof -
  define f where "f = (\<lambda>b::byte. if r (uint b) then b else 46)"
  have nz: "f b \<noteq> 0" for b
    unfolding f_def r by auto
  have all: "\<forall>x\<in>set (map f p). x \<noteq> 0"
    using nz by auto
  have tw: "takeWhile (\<lambda>b. b \<noteq> 0) (map f p) = map f p"
    using all by (simp only: takeWhile_eq_all_conv)
  have fc: "fmt_c (f b) = ascii_or_dot b" for b
    unfolding f_def r readable_byte by (auto simp: ascii_or_dot_def fmt_c_46)
  have "c_string (map f p) = map ascii_or_dot p"
    unfolding c_string_def tw by (simp add: fc)
  then show ?thesis by (simp add: f_def)
qed

lemma last_row_eq:
  assumes "r = (\<lambda>n. 32 \<le> n \<and> n \<le> 126)"
  shows "last_row r p = hex_row p"
  by (simp add: last_row_def last_row_loop_eq c_string_readable[OF assms] hex_row_def)

lemma full_row_eq:
  assumes r: "r = (\<lambda>n. 32 \<le> n \<and> n \<le> 126)" and "16 \<le> length p"
  shows "full_row r p = hex_row (take 16 p)"
proof -
  have t: "take 16 p = map (\<lambda>i. p ! i) [0..<16]"
    using assms(2) by (auto simp: list_eq_iff_nth_eq)
  show ?thesis unfolding full_row_def hex_row_def t r readable_byte
    by (simp add: ascii_or_dot_def comp_def del: upt.simps)
qed

declare DumpSecretData.simps [simp del] dump_bytes.simps [simp del]

lemma DumpSecretData_length: "length (DumpSecretData p) = (length p + 15) div 16"
proof (induction p rule: DumpSecretData.induct)
  case (1 p)
  show ?case
  proof (cases "length p > 16")
    case True
    with 1 show ?thesis by (subst DumpSecretData.simps) simp
  next
    case False
    then consider "length p = 0" | "0 < length p" "length p \<le> 16" by linarith
    then show ?thesis
    proof cases
      case 1
      then show ?thesis by (subst DumpSecretData.simps) simp
    next
      case 2
      then have "(length p + 15) div 16 = 1" by presburger
      with 2 show ?thesis by (subst DumpSecretData.simps) simp
    qed
  qed
qed

lemma DumpSecretData_row:
  "i < (length p + 15) div 16 \<Longrightarrow> DumpSecretData p ! i = hex_row (take 16 (drop (16 * i) p))"
proof (induction p arbitrary: i rule: DumpSecretData.induct)
  case (1 p)
  show ?case
  proof (cases "length p > 16")
    case True
    show ?thesis
    proof (cases i)
      case 0
      with True show ?thesis
        by (subst DumpSecretData.simps) (simp add: full_row_eq[OF IsReadableChar_eq])
    next
      case (Suc k)
      with True "1.prems" have "k < (length (drop 16 p) + 15) div 16" by simp
      from "1.IH"[OF True this] Suc True show ?thesis
        by (subst DumpSecretData.simps) (simp add: add.commute)
    qed
  next
    case False
    with "1.prems" have "i = 0" "0 < length p" by auto
    with False show ?thesis
      by (subst DumpSecretData.simps) (simp add: last_row_eq[OF IsReadableChar_eq])
  qed
qed


lemma dump_bytes_length: "length (dump_bytes p) = (length p + 15) div 16"
proof (induction p rule: dump_bytes.induct)
  case (1 p)
  show ?case
  proof (cases "length p > 16")
    case True
    with 1 show ?thesis by (subst dump_bytes.simps) simp
  next
    case False
    then consider "length p = 0" | "0 < length p" "length p \<le> 16" by linarith
    then show ?thesis
    proof cases
      case 1
      then show ?thesis by (subst dump_bytes.simps) simp
    next
      case 2
      then have "(length p + 15) div 16 = 1" by presburger
      with 2 show ?thesis by (subst dump_bytes.simps) simp
    qed
  qed
qed

lemma dump_bytes_row:
  "i < (length p + 15) div 16 \<Longrightarrow>
     dump_bytes p ! i = hex_row (take 16 (drop (16 * i) p)) @ [CHR 0x0A]"
proof (induction p arbitrary: i rule: dump_bytes.induct)
  case (1 p)
  show ?case
  proof (cases "length p > 16")
    case True
    show ?thesis
    proof (cases i)
      case 0
      with True show ?thesis
        by (subst dump_bytes.simps) (simp add: full_row_eq[OF myisprint_eq])
    next
      case (Suc k)
      with True "1.prems" have "k < (length (drop 16 p) + 15) div 16" by simp
      from "1.IH"[OF True this] Suc True show ?thesis
        by (subst dump_bytes.simps) (simp add: add.commute)
    qed
  next
    case False
    with "1.prems" have "i = 0" "0 < length p" by auto
    with False show ?thesis
      by (subst dump_bytes.simps) (simp add: last_row_eq[OF myisprint_eq])
  qed
qed

lemma length_fmt_02X: "length (fmt_02X x) = 2"
  by (simp add: fmt_02X_def)

lemma length_hex_groups:
  "length (concat (map (\<lambda>b. CHR '' '' # fmt_02X b) g)) = 3 * length g"
  by (induction g) (simp_all add: length_fmt_02X)

lemma hex_row_ascii:
  assumes "m < length g" "length g \<le> 16"
  shows "hex_row g ! (50 + m) = ascii_or_dot (g ! m)"
proof -
  let ?h = "concat (map (\<lambda>b. CHR '' '' # fmt_02X b) g)"
  let ?pad = "replicate ((16 - length g) * 3 + 2) (CHR '' '')"
  have "length (?h @ ?pad) = 50"
    using assms(2) by (simp add: length_hex_groups)
  then have "(?h @ ?pad @ map ascii_or_dot g) ! (50 + m) = map ascii_or_dot g ! m"
    by (metis append.assoc nth_append_length_plus)
  with assms(1) show ?thesis by (simp add: hex_row_def)
qed

lemma length_hex_row: "length g \<le> 16 \<Longrightarrow> length (hex_row g) = 50 + length g"
  by (simp add: hex_row_def length_hex_groups)

lemma hex_row_full:
  "length g = 16 \<Longrightarrow>
     hex_row g = concat (map (\<lambda>b. CHR '' '' # fmt_02X b) g) @ ''  '' @ map ascii_or_dot g"
  by (simp add: hex_row_def)

lemma group_nth_aux:
  assumes "16 * q + r < length b" "r < 16"
  shows "take 16 (drop (16 * q) b) ! r = b ! (16 * q + r)"
    and "r < length (take 16 (drop (16 * q) b))"
    and "q < (length b + 15) div 16"
proof -
  show "take 16 (drop (16 * q) b) ! r = b ! (16 * q + r)"
    using assms by simp
  have "r < length b - 16 * q" using assms(1) by linarith
  then show "r < length (take 16 (drop (16 * q) b))"
    using assms(2) by simp
  have "16 * q + 16 \<le> length b + 15" using assms(1) by linarith
  then have "16 * (q + 1) \<le> length b + 15" by simp
  then have "q + 1 \<le> (length b + 15) div 16"
    by (metis div_le_mono nonzero_mult_div_cancel_left zero_neq_numeral)
  then show "q < (length b + 15) div 16" by simp
qed

lemma group_nth:
  assumes "k < length b"
  shows "take 16 (drop (16 * (k div 16)) b) ! (k mod 16) = b ! k"
    and "k mod 16 < length (take 16 (drop (16 * (k div 16)) b))"
    and "k div 16 < (length b + 15) div 16"
proof -
  have l: "16 * (k div 16) + k mod 16 < length b" using assms by simp
  have r: "k mod 16 < 16" by simp
  show "take 16 (drop (16 * (k div 16)) b) ! (k mod 16) = b ! k"
    using group_nth_aux(1)[OF l r] by simp
  show "k mod 16 < length (take 16 (drop (16 * (k div 16)) b))"
    by (rule group_nth_aux(2)[OF l r])
  show "k div 16 < (length b + 15) div 16"
    by (rule group_nth_aux(3)[OF l r])
qed

text \<open>
  Claim C9. For every byte blob \<open>b\<close>, both hex-dump formatters produce
  \<open>ceil(length b / 16)\<close> rows. A row made from a full group of sixteen bytes consists of
  exactly sixteen groups of a blank and two hexadecimal digits, two blanks, and exactly
  sixteen trailing characters (\<open>dump_bytes\<close> ends the row with a newline). The character
  shown for byte \<open>k\<close> stands at column \<open>50 + k mod 16\<close> of row \<open>k div 16\<close>; it is the byte
  itself when the byte lies in 0x20..0x7E and a dot otherwise.
\<close>

theorem hex_dump_rows:
  "length (DumpSecretData b) = (length b + 15) div 16 \<and>
   length (dump_bytes b) = (length b + 15) div 16 \<and>
   (\<forall>i. 16 * i + 16 \<le> length b \<longrightarrow>
      length (take 16 (drop (16 * i) b)) = 16 \<and>
      DumpSecretData b ! i =
        concat (map (\<lambda>x. CHR '' '' # fmt_02X x) (take 16 (drop (16 * i) b))) @ ''  '' @
        map ascii_or_dot (take 16 (drop (16 * i) b)) \<and>
      dump_bytes b ! i = DumpSecretData b ! i @ [CHR 0x0A]) \<and>
   (\<forall>k < length b.
      DumpSecretData b ! (k div 16) ! (50 + k mod 16) =
        (if 0x20 \<le> b ! k \<and> b ! k \<le> 0x7E then fmt_c (b ! k) else CHR ''.'') \<and>
      dump_bytes b ! (k div 16) ! (50 + k mod 16) =
        (if 0x20 \<le> b ! k \<and> b ! k \<le> 0x7E then fmt_c (b ! k) else CHR ''.''))"
proof (intro conjI allI impI)
  show "length (DumpSecretData b) = (length b + 15) div 16"
    by (rule DumpSecretData_length)
  show "length (dump_bytes b) = (length b + 15) div 16"
    by (rule dump_bytes_length)
next
  fix i assume i: "16 * i + 16 \<le> length b"
  then have "16 * i + 15 < length b" by simp
  then have lt: "i < (length b + 15) div 16"
    by (rule group_nth_aux(3)) simp
  show len: "length (take 16 (drop (16 * i) b)) = 16" using i by simp
  show "DumpSecretData b ! i =
        concat (map (\<lambda>x. CHR '' '' # fmt_02X x) (take 16 (drop (16 * i) b))) @ ''  '' @
        map ascii_or_dot (take 16 (drop (16 * i) b))"
    using DumpSecretData_row[OF lt] hex_row_full[OF len] by simp
  show "dump_bytes b ! i = DumpSecretData b ! i @ [CHR 0x0A]"
    using DumpSecretData_row[OF lt] dump_bytes_row[OF lt] by simp
next
  fix k assume k: "k < length b"
  let ?g = "take 16 (drop (16 * (k div 16)) b)"
  have g: "length ?g \<le> 16" by simp
  have a: "hex_row ?g ! (50 + k mod 16) = ascii_or_dot (b ! k)"
    using hex_row_ascii[OF group_nth(2)[OF k] g] group_nth(1)[OF k] by simp
  show "DumpSecretData b ! (k div 16) ! (50 + k mod 16) =
        (if 0x20 \<le> b ! k \<and> b ! k \<le> 0x7E then fmt_c (b ! k) else CHR ''.'')"
    using DumpSecretData_row[OF group_nth(3)[OF k]] a by (simp add: ascii_or_dot_def)
  have "length (hex_row ?g) > 50 + k mod 16"
    using group_nth(2)[OF k] length_hex_row[OF g] by linarith
  then have "(hex_row ?g @ [CHR 0x0A]) ! (50 + k mod 16) = hex_row ?g ! (50 + k mod 16)"
    by (simp add: nth_append)
  then show "dump_bytes b ! (k div 16) ! (50 + k mod 16) =
        (if 0x20 \<le> b ! k \<and> b ! k \<le> 0x7E then fmt_c (b ! k) else CHR ''.'')"
    using dump_bytes_row[OF group_nth(3)[OF k]] a by (simp add: ascii_or_dot_def)
qed


theorem hex_dump_rows_witness:
  "length (DumpSecretData [0x4E, 0x4C, 0x24, 0x4B, 0x4D, 0x00, 0x7F, 0x20, 0x7E, 0x1F, 0x80,
      0xFF, 0x30, 0x61, 0x7A, 0x3A, 0x0A]) = 2 \<and>
   DumpSecretData [0x4E, 0x4C, 0x24, 0x4B, 0x4D, 0x00, 0x7F, 0x20, 0x7E, 0x1F, 0x80,
      0xFF, 0x30, 0x61, 0x7A, 0x3A, 0x0A] ! 0 =
     '' 4E 4C 24 4B 4D 00 7F 20 7E 1F 80 FF 30 61 7A 3A  NL$KM.. ~...0az:'' \<and>
   DumpSecretData [0x4E, 0x4C, 0x24, 0x4B, 0x4D, 0x00, 0x7F, 0x20, 0x7E, 0x1F, 0x80,
      0xFF, 0x30, 0x61, 0x7A, 0x3A, 0x0A] ! 1 ! 50 = CHR ''.''"
proof -
  let ?b = "[0x4E, 0x4C, 0x24, 0x4B, 0x4D, 0x00, 0x7F, 0x20, 0x7E, 0x1F, 0x80,
      0xFF, 0x30, 0x61, 0x7A, 0x3A, 0x0A] :: byte list"
  have c: "map fmt_c [0x4E, 0x4C, 0x24, 0x4B, 0x4D, 0x20, 0x7E, 0x30, 0x61, 0x7A, 0x3A]
             = ''NL$KM ~0az:''"
    by code_simp
  have h: "map fmt_02X ?b = [''4E'', ''4C'', ''24'', ''4B'', ''4D'', ''00'', ''7F'', ''20'',
      ''7E'', ''1F'', ''80'', ''FF'', ''30'', ''61'', ''7A'', ''3A'', ''0A'']"
    by code_simp
  note t = hex_dump_rows[of ?b]
  have l: "length (DumpSecretData ?b) = 2"
    using t by simp
  have "16 * 0 + 16 \<le> length ?b" by simp
  with t have "DumpSecretData ?b ! 0 =
      concat (map (\<lambda>x. CHR '' '' # fmt_02X x) (take 16 (drop (16 * 0) ?b))) @ ''  '' @
        map ascii_or_dot (take 16 (drop (16 * 0) ?b))"
    by blast
  then have r0: "DumpSecretData ?b ! 0 =
     '' 4E 4C 24 4B 4D 00 7F 20 7E 1F 80 FF 30 61 7A 3A  NL$KM.. ~...0az:''"
    using c h by (simp add: ascii_or_dot_def)
  have "(16::nat) < length ?b" by simp
  with t have "DumpSecretData ?b ! (16 div 16) ! (50 + 16 mod 16) =
        (if 0x20 \<le> ?b ! 16 \<and> ?b ! 16 \<le> 0x7E then fmt_c (?b ! 16) else CHR ''.'')"
    by blast
  then have r1: "DumpSecretData ?b ! 1 ! 50 = CHR ''.''"
    by simp
  from l r0 r1 show ?thesis by blast
qed
section \<open>Properties of the entry point\<close>

lemma atoi_single: "atoi [c] = (if is_digit c then int (of_char c) - 48 else 0)"
  by (auto simp: atoi_def is_digit_def is_space_def)

lemma char_eq_code: "(c = d) = ((of_char c :: nat) = of_char d)"
  by simp

lemma major_gt_4: "(atoi [c] > 4) = (c \<in> set ''56789'')"
proof -
  have "(atoi [c] > 4) = (53 \<le> (of_char c::nat) \<and> (of_char c::nat) \<le> 57)"
    by (auto simp: atoi_single is_digit_def)
  also have "\<dots> = ((of_char c::nat) = 53 \<or> (of_char c::nat) = 54 \<or> (of_char c::nat) = 55
      \<or> (of_char c::nat) = 56 \<or> (of_char c::nat) = 57)"
    by auto
  also have "\<dots> = (c \<in> set ''56789'')"
    by (simp add: char_eq_code[of c])
  finally show ?thesis .
qed

lemma cache_called_iff:
  "(Call_DumpPWCache \<in> set (DumpLSAInfo reg c s h hh)) =
     (c \<and> RegConnectRegistry_ok reg \<and> RegOpenKeyEx_ok reg \<and>
      (case RegQueryValueEx_CurrentVersion reg of None \<Rightarrow> False
       | Some v \<Rightarrow> v \<noteq> [] \<and> atoi [hd v] > 4))"
  by (auto simp: DumpLSAInfo_def DumpLSAInfo_cache_def split: option.splits)

lemma other_indep:
  "filter other_category (DumpLSAInfo reg c s h hh) =
   (if s then [Call_DumpLSASecrets, EncryptOutputFile ''LSASecrets.txt''] else []) @
   (if h then [Call_DumpPWHashes, EncryptOutputFile ''PWHashes.txt''] else []) @
   (if hh then [Call_DumpPWHistoryHashes, EncryptOutputFile ''PWHistoryHashes.txt''] else [])"
  by (simp add: DumpLSAInfo_def DumpLSAInfo_cache_def other_category_def split: option.splits)

lemma low_version_quiet:
  assumes "RegQueryValueEx_CurrentVersion reg = Some v" "v = [] \<or> \<not> atoi [hd v] > 4"
  shows "Call_DumpPWCache \<notin> set (DumpLSAInfo reg c s h hh)"
    and "RegConnectRegistry_ok reg \<Longrightarrow> RegOpenKeyEx_ok reg \<Longrightarrow>
           filter is_LogError (DumpLSAInfo reg c s h hh) = []"
  using assms
  by (auto simp: DumpLSAInfo_def DumpLSAInfo_cache_def is_LogError_def)

text \<open>
  Claim C10. \<open>DumpLSAInfo\<close> calls \<open>DumpPWCache\<close> exactly when the cache category is
  requested, the registry value \<open>CurrentVersion\<close> is read successfully, and its first
  character parses (by \<open>atoi\<close>) to a number greater than 4, that is, the character is one
  of 5 to 9. When the value is read and the major version is 4 or lower, \<open>DumpPWCache\<close> is
  not called and nothing is written to the error log. The actions of the other three
  categories depend neither on the registry answers nor on the cache switch.
\<close>

theorem DumpLSAInfo_version_gate:
  "(Call_DumpPWCache \<in> set (DumpLSAInfo reg c s h hh)) =
     (c \<and> RegConnectRegistry_ok reg \<and> RegOpenKeyEx_ok reg \<and>
      (case RegQueryValueEx_CurrentVersion reg of None \<Rightarrow> False
       | Some v \<Rightarrow> v \<noteq> [] \<and> atoi [hd v] > 4 \<and> hd v \<in> set ''56789'')) \<and>
   (RegConnectRegistry_ok reg \<and> RegOpenKeyEx_ok reg \<and>
    RegQueryValueEx_CurrentVersion reg = Some v \<and> (v = [] \<or> atoi [hd v] \<le> 4) \<longrightarrow>
      Call_DumpPWCache \<notin> set (DumpLSAInfo reg c s h hh) \<and>
      filter is_LogError (DumpLSAInfo reg c s h hh) = []) \<and>
   filter other_category (DumpLSAInfo reg c s h hh) =
     filter other_category (DumpLSAInfo reg' c' s h hh)"
proof (intro conjI impI)
  show "(Call_DumpPWCache \<in> set (DumpLSAInfo reg c s h hh)) =
     (c \<and> RegConnectRegistry_ok reg \<and> RegOpenKeyEx_ok reg \<and>
      (case RegQueryValueEx_CurrentVersion reg of None \<Rightarrow> False
       | Some v \<Rightarrow> v \<noteq> [] \<and> atoi [hd v] > 4 \<and> hd v \<in> set ''56789''))"
    unfolding cache_called_iff
    by (cases "RegQueryValueEx_CurrentVersion reg") (auto simp: major_gt_4 simp del: set_simps)
next
  assume a: "RegConnectRegistry_ok reg \<and> RegOpenKeyEx_ok reg \<and>
    RegQueryValueEx_CurrentVersion reg = Some v \<and> (v = [] \<or> atoi [hd v] \<le> 4)"
  then have v: "v = [] \<or> \<not> atoi [hd v] > 4" by auto
  from a show "Call_DumpPWCache \<notin> set (DumpLSAInfo reg c s h hh)"
    using low_version_quiet(1)[OF _ v] by blast
  from a show "filter is_LogError (DumpLSAInfo reg c s h hh) = []"
    using low_version_quiet(2)[OF _ v] by blast
next
  show "filter other_category (DumpLSAInfo reg c s h hh) =
     filter other_category (DumpLSAInfo reg' c' s h hh)"
    by (simp only: other_indep)
qed

theorem DumpLSAInfo_version_gate_witness:
  "atoi [hd ''4.0''] \<le> 4 \<and>
   Call_DumpPWCache \<notin> set (DumpLSAInfo
     \<lparr>RegConnectRegistry_ok = True, RegOpenKeyEx_ok = True,
      RegQueryValueEx_CurrentVersion = Some ''4.0''\<rparr> True True True True) \<and>
   filter is_LogError (DumpLSAInfo
     \<lparr>RegConnectRegistry_ok = True, RegOpenKeyEx_ok = True,
      RegQueryValueEx_CurrentVersion = Some ''4.0''\<rparr> True True True True) = [] \<and>
   Call_DumpPWCache \<in> set (DumpLSAInfo
     \<lparr>RegConnectRegistry_ok = True, RegOpenKeyEx_ok = True,
      RegQueryValueEx_CurrentVersion = Some ''5.1''\<rparr> True False False False)"
proof -
  let ?r4 = "\<lparr>RegConnectRegistry_ok = True, RegOpenKeyEx_ok = True,
      RegQueryValueEx_CurrentVersion = Some ''4.0''\<rparr>"
  let ?r5 = "\<lparr>RegConnectRegistry_ok = True, RegOpenKeyEx_ok = True,
      RegQueryValueEx_CurrentVersion = Some ''5.1''\<rparr>"
  have v4: "atoi [hd ''4.0''] \<le> 4"
    by (simp add: atoi_single is_digit_def)
  have v5: "atoi [hd ''5.1''] > 4"
    by (simp add: atoi_single is_digit_def)
  have h4: "RegConnectRegistry_ok ?r4 \<and> RegOpenKeyEx_ok ?r4 \<and>
    RegQueryValueEx_CurrentVersion ?r4 = Some ''4.0'' \<and> (''4.0'' = [] \<or> atoi [hd ''4.0''] \<le> 4)"
    using v4 by simp
  have q4: "Call_DumpPWCache \<notin> set (DumpLSAInfo ?r4 True True True True) \<and>
      filter is_LogError (DumpLSAInfo ?r4 True True True True) = []"
    using DumpLSAInfo_version_gate[of ?r4 True True True True "''4.0''"] h4 by blast
  have "(Call_DumpPWCache \<in> set (DumpLSAInfo ?r5 True False False False)) =
     (True \<and> RegConnectRegistry_ok ?r5 \<and> RegOpenKeyEx_ok ?r5 \<and>
      (case RegQueryValueEx_CurrentVersion ?r5 of None \<Rightarrow> False
       | Some v \<Rightarrow> v \<noteq> [] \<and> atoi [hd v] > 4 \<and> hd v \<in> set ''56789''))"
    using DumpLSAInfo_version_gate[of ?r5 True False False False] by blast
  then have q5: "Call_DumpPWCache \<in> set (DumpLSAInfo ?r5 True False False False)"
    using v5 by simp
  from v4 q4 q5 show ?thesis by blast
qed

section \<open>Properties of the injection routines\<close>

lemma InjectDLL_calls:
  "list_all (call_as_specified sys sizeof_THREAD_ARGS) (InjectDLL sys)"
  by (simp add: InjectDLL_def Let_def thunkByteLength_def add.commute add.left_commute)

lemma InjectDll_calls:
  "list_all (call_as_specified sys sizeof_REMOTE_INFO) (InjectDll sys)"
  by (simp add: InjectDll_def InjectDll_exit_def Let_def thunkByteLength_def
      add.commute add.left_commute)

lemma InjectDLL_success:
  assumes "OpenProcess_handle sys \<noteq> 0"
    and "pLoadLibrary sys \<noteq> 0" "pGetProcAddress sys \<noteq> 0" "pFreeLibrary sys \<noteq> 0"
    and "VirtualAllocEx_address sys \<noteq> 0"
    and "WriteProcessMemory_first sys" "WriteProcessMemory_second sys"
    and "CreateRemoteThread_handle sys \<noteq> 0"
  shows "InjectDLL sys =
     [VirtualAllocEx (sizeof_THREAD_ARGS + 4 + thunkByteLength sys),
      WriteProcessMemory (VirtualAllocEx_address sys) ArgumentBlock sizeof_THREAD_ARGS,
      WriteProcessMemory (VirtualAllocEx_address sys + (sizeof_THREAD_ARGS + 4)) ThunkCode
        (thunkByteLength sys),
      CreateRemoteThread (VirtualAllocEx_address sys + (sizeof_THREAD_ARGS + 4))
        (VirtualAllocEx_address sys),
      WaitForSingleObject, CloseHandle, VirtualFreeEx (VirtualAllocEx_address sys)]"
  using assms
  by (simp add: InjectDLL_def Let_def thunkByteLength_def add.commute add.left_commute)

lemma InjectDll_success:
  assumes "VirtualAllocEx_address sys \<noteq> 0"
    and "WriteProcessMemory_first sys" "WriteProcessMemory_second sys"
    and "CreateRemoteThread_handle sys \<noteq> 0"
  shows "InjectDll sys =
     [VirtualAllocEx (sizeof_REMOTE_INFO + 4 + thunkByteLength sys),
      WriteProcessMemory (VirtualAllocEx_address sys) ArgumentBlock sizeof_REMOTE_INFO,
      WriteProcessMemory (VirtualAllocEx_address sys + (sizeof_REMOTE_INFO + 4)) ThunkCode
        (thunkByteLength sys),
      CreateRemoteThread (VirtualAllocEx_address sys + (sizeof_REMOTE_INFO + 4))
        (VirtualAllocEx_address sys),
      WaitForSingleObject, CloseHandle, VirtualFreeEx (VirtualAllocEx_address sys)]"
  using assms
  by (simp add: InjectDll_def InjectDll_exit_def Let_def thunkByteLength_def
      add.commute add.left_commute)

lemma alloc_size_exact:
  assumes "unat (thunkByteLength sys) + unat sz + 4 < 2 ^ 32"
  shows "unat (sz + 4 + thunkByteLength sys) = unat sz + 4 + unat (thunkByteLength sys)"
proof -
  have "unat (sz + 4) = unat sz + 4"
    using assms by (simp add: unat_word_ariths)
  then show ?thesis
    using assms by (simp add: unat_word_ariths)
qed

text \<open>After a successful allocation \<open>InjectDll\<close> of lsadump2.c always ends by freeing it.\<close>

lemma InjectDll_frees:
  "VirtualAllocEx_address sys \<noteq> 0 \<Longrightarrow>
     last (InjectDll sys) = VirtualFreeEx (VirtualAllocEx_address sys)"
  by (simp add: InjectDll_def InjectDll_exit_def Let_def)

text \<open>\<open>InjectDLL\<close> of DumpSvc.c frees the allocation on the path of complete success only.\<close>

text \<open>\<open>InjectDll\<close> of lsadump2.c stores the three loader addresses without testing them
  (lines 239 to 242): what it does is the same whatever they are, \<open>NULL\<close> included, so a
  failed resolution of a loader address is not reported.\<close>

lemma InjectDll_loader_addresses_untested:
  "InjectDll (sys\<lparr>pLoadLibrary := a, pGetProcAddress := b, pFreeLibrary := c\<rparr>) = InjectDll sys"
  by (simp add: InjectDll_def Let_def)

lemma InjectDLL_frees_iff:
  "(VirtualFreeEx a \<in> set (InjectDLL sys)) =
     (a = VirtualAllocEx_address sys \<and>
      OpenProcess_handle sys \<noteq> 0 \<and> pLoadLibrary sys \<noteq> 0 \<and> pGetProcAddress sys \<noteq> 0 \<and>
      pFreeLibrary sys \<noteq> 0 \<and> VirtualAllocEx_address sys \<noteq> 0 \<and>
      WriteProcessMemory_first sys \<and> WriteProcessMemory_second sys \<and>
      CreateRemoteThread_handle sys \<noteq> 0)"
  by (auto simp: InjectDLL_def Let_def)

text \<open>
  Claim C4. In both injection routines every remote allocation has the size
  \<open>sizeof(argument block) + 4 + thunkByteLength\<close> (in 32-bit arithmetic, and as a number
  whenever the sum stays below \<open>2 ^ 32\<close>), every remote write is either the argument block at
  the base of the allocation or the thunk \<open>sizeof(argument block) + 4\<close> bytes after the
  base, and every remote thread starts at the copied thunk with the base of the allocation
  as its argument. When every system call succeeds, the calls are exactly: allocate,
  write the block, write the thunk, create the thread, wait, close, free.
\<close>

theorem injection_layout:
  "list_all (call_as_specified sys sizeof_THREAD_ARGS) (InjectDLL sys) \<and>
   list_all (call_as_specified sys sizeof_REMOTE_INFO) (InjectDll sys) \<and>
   (OpenProcess_handle sys \<noteq> 0 \<and> pLoadLibrary sys \<noteq> 0 \<and> pGetProcAddress sys \<noteq> 0 \<and>
    pFreeLibrary sys \<noteq> 0 \<and> VirtualAllocEx_address sys \<noteq> 0 \<and>
    WriteProcessMemory_first sys \<and> WriteProcessMemory_second sys \<and>
    CreateRemoteThread_handle sys \<noteq> 0 \<longrightarrow>
      InjectDLL sys =
        [VirtualAllocEx (sizeof_THREAD_ARGS + 4 + thunkByteLength sys),
         WriteProcessMemory (VirtualAllocEx_address sys) ArgumentBlock sizeof_THREAD_ARGS,
         WriteProcessMemory (VirtualAllocEx_address sys + (sizeof_THREAD_ARGS + 4)) ThunkCode
           (thunkByteLength sys),
         CreateRemoteThread (VirtualAllocEx_address sys + (sizeof_THREAD_ARGS + 4))
           (VirtualAllocEx_address sys),
         WaitForSingleObject, CloseHandle, VirtualFreeEx (VirtualAllocEx_address sys)] \<and>
      InjectDll sys =
        [VirtualAllocEx (sizeof_REMOTE_INFO + 4 + thunkByteLength sys),
         WriteProcessMemory (VirtualAllocEx_address sys) ArgumentBlock sizeof_REMOTE_INFO,
         WriteProcessMemory (VirtualAllocEx_address sys + (sizeof_REMOTE_INFO + 4)) ThunkCode
           (thunkByteLength sys),
         CreateRemoteThread (VirtualAllocEx_address sys + (sizeof_REMOTE_INFO + 4))
           (VirtualAllocEx_address sys),
         WaitForSingleObject, CloseHandle, VirtualFreeEx (VirtualAllocEx_address sys)]) \<and>
   (unat (thunkByteLength sys) + unat sz + 4 < 2 ^ 32 \<longrightarrow>
      unat (sz + 4 + thunkByteLength sys) = unat sz + 4 + unat (thunkByteLength sys))"
  using InjectDLL_calls InjectDll_calls InjectDLL_success InjectDll_success alloc_size_exact
  by blast

theorem injection_layout_witness:
  "InjectDLL \<lparr>OpenProcess_handle = 0x7C, pLoadLibrary = 0x7C801D7B,
      pGetProcAddress = 0x7C80AE40, pFreeLibrary = 0x7C80AC7E, thunk_address = 0x401A00,
      marker_address = 0x401A60, VirtualAllocEx_address = 0xA50000,
      WriteProcessMemory_first = True, WriteProcessMemory_second = True,
      CreateRemoteThread_handle = 0x80\<rparr> =
     [VirtualAllocEx 768, WriteProcessMemory 0xA50000 ArgumentBlock 668,
      WriteProcessMemory 0xA502A0 ThunkCode 96, CreateRemoteThread 0xA502A0 0xA50000,
      WaitForSingleObject, CloseHandle, VirtualFreeEx 0xA50000] \<and>
   InjectDll \<lparr>OpenProcess_handle = 0x7C, pLoadLibrary = 0x7C801D7B,
      pGetProcAddress = 0x7C80AE40, pFreeLibrary = 0x7C80AC7E, thunk_address = 0x401A00,
      marker_address = 0x401A60, VirtualAllocEx_address = 0xA50000,
      WriteProcessMemory_first = True, WriteProcessMemory_second = True,
      CreateRemoteThread_handle = 0x80\<rparr> =
     [VirtualAllocEx 896, WriteProcessMemory 0xA50000 ArgumentBlock 796,
      WriteProcessMemory 0xA50320 ThunkCode 96, CreateRemoteThread 0xA50320 0xA50000,
      WaitForSingleObject, CloseHandle, VirtualFreeEx 0xA50000]"
proof -
  let ?sys = "\<lparr>OpenProcess_handle = 0x7C, pLoadLibrary = 0x7C801D7B,
      pGetProcAddress = 0x7C80AE40, pFreeLibrary = 0x7C80AC7E, thunk_address = 0x401A00,
      marker_address = 0x401A60, VirtualAllocEx_address = 0xA50000,
      WriteProcessMemory_first = True, WriteProcessMemory_second = True,
      CreateRemoteThread_handle = 0x80\<rparr>"
  have h: "OpenProcess_handle ?sys \<noteq> 0 \<and> pLoadLibrary ?sys \<noteq> 0 \<and>
    pGetProcAddress ?sys \<noteq> 0 \<and> pFreeLibrary ?sys \<noteq> 0 \<and> VirtualAllocEx_address ?sys \<noteq> 0 \<and>
    WriteProcessMemory_first ?sys \<and> WriteProcessMemory_second ?sys \<and>
    CreateRemoteThread_handle ?sys \<noteq> 0"
    by simp
  have t: "thunkByteLength ?sys = 96"
    by (simp add: thunkByteLength_def)
  from injection_layout[of ?sys] h have
    "InjectDLL ?sys =
        [VirtualAllocEx (sizeof_THREAD_ARGS + 4 + thunkByteLength ?sys),
         WriteProcessMemory (VirtualAllocEx_address ?sys) ArgumentBlock sizeof_THREAD_ARGS,
         WriteProcessMemory (VirtualAllocEx_address ?sys + (sizeof_THREAD_ARGS + 4)) ThunkCode
           (thunkByteLength ?sys),
         CreateRemoteThread (VirtualAllocEx_address ?sys + (sizeof_THREAD_ARGS + 4))
           (VirtualAllocEx_address ?sys),
         WaitForSingleObject, CloseHandle, VirtualFreeEx (VirtualAllocEx_address ?sys)] \<and>
      InjectDll ?sys =
        [VirtualAllocEx (sizeof_REMOTE_INFO + 4 + thunkByteLength ?sys),
         WriteProcessMemory (VirtualAllocEx_address ?sys) ArgumentBlock sizeof_REMOTE_INFO,
         WriteProcessMemory (VirtualAllocEx_address ?sys + (sizeof_REMOTE_INFO + 4)) ThunkCode
           (thunkByteLength ?sys),
         CreateRemoteThread (VirtualAllocEx_address ?sys + (sizeof_REMOTE_INFO + 4))
           (VirtualAllocEx_address ?sys),
         WaitForSingleObject, CloseHandle, VirtualFreeEx (VirtualAllocEx_address ?sys)]"
    by blast
  then show ?thesis
    unfolding t by (simp add: sizeof_THREAD_ARGS_def sizeof_REMOTE_INFO_def)
qed

text \<open>
  Claim C5. The claim asks that every failure path reports an error and frees the remote
  memory allocated before the failing step. \<open>InjectDLL\<close> of DumpSvc.c does not: when the
  allocation succeeds and the first remote write fails, it logs the write error and
  returns without a \<open>VirtualFreeEx\<close>; the same happens when the second write or the
  thread creation fails. \<open>InjectDll\<close> of lsadump2.c, on the same answers of the system,
  reports the error and frees the allocation.
\<close>

theorem InjectDLL_failed_write_keeps_allocation:
  "InjectDLL \<lparr>OpenProcess_handle = 0x7C, pLoadLibrary = 0x7C801D7B,
      pGetProcAddress = 0x7C80AE40, pFreeLibrary = 0x7C80AC7E, thunk_address = 0x401A00,
      marker_address = 0x401A60, VirtualAllocEx_address = 0xA50000,
      WriteProcessMemory_first = False, WriteProcessMemory_second = True,
      CreateRemoteThread_handle = 0x80\<rparr> =
     [VirtualAllocEx 768, WriteProcessMemory 0xA50000 ArgumentBlock 668,
      WriteToErrorLog Cannot_write_to_process_memory] \<and>
   InjectDll \<lparr>OpenProcess_handle = 0x7C, pLoadLibrary = 0x7C801D7B,
      pGetProcAddress = 0x7C80AE40, pFreeLibrary = 0x7C80AC7E, thunk_address = 0x401A00,
      marker_address = 0x401A60, VirtualAllocEx_address = 0xA50000,
      WriteProcessMemory_first = False, WriteProcessMemory_second = True,
      CreateRemoteThread_handle = 0x80\<rparr> =
     [VirtualAllocEx 896, WriteProcessMemory 0xA50000 ArgumentBlock 796,
      PrintStderr WriteProcessMemory_failed, VirtualFreeEx 0xA50000]"
  by (simp add: InjectDLL_def InjectDll_def InjectDll_exit_def Let_def
      sizeof_THREAD_ARGS_def sizeof_REMOTE_INFO_def)

section \<open>Properties of the secret loops\<close>

lemma body_no_open_DumpLSASecrets:
  "filter is_open_call (DumpLSASecrets_body lsa w) = []"
  by (simp add: DumpLSASecrets_body_def is_open_call_def split: prod.splits option.splits)

lemma body_no_open_DumpLsa:
  "filter is_open_call (fst (DumpLsa_body lsa lsaData w)) = []"
  by (simp add: DumpLsa_body_def Let_def is_open_call_def
      split: prod.splits option.splits lsa_pointer.splits)

text \<open>Both loops open each name with its length first and retry exactly once, with the
  length increased by 2, when the first open fails.\<close>

lemma DumpLSASecrets_retry_once:
  "filter is_open_call (DumpLSASecrets_loop lsa [w]) =
     (if NT_failed (LsarOpenSecret lsa w (length w * 2))
      then [LsarOpenSecret_call w (length w * 2), LsarOpenSecret_call w (length w * 2 + 2)]
      else [LsarOpenSecret_call w (length w * 2)])"
  by (simp add: Let_def body_no_open_DumpLSASecrets) (simp add: is_open_call_def)

lemma DumpLsa_retry_once:
  "filter is_open_call (DumpLsa_loop lsa [w]) =
     (if NT_failed (LsarOpenSecret lsa w (length w * 2))
      then [LsarOpenSecret_call w (length w * 2), LsarOpenSecret_call w (length w * 2 + 2)]
      else [LsarOpenSecret_call w (length w * 2)])"
  by (simp add: DumpLsa_loop_def Let_def body_no_open_DumpLsa) (simp add: is_open_call_def)

text \<open>When both opens fail, \<open>DumpLsa\<close> records the error and \<open>DumpLSASecrets\<close> records
  nothing.\<close>

lemma DumpLsa_gives_up_with_error:
  assumes "NT_failed (LsarOpenSecret lsa w (length w * 2))"
    and "NT_failed (LsarOpenSecret lsa w (length w * 2 + 2))"
  shows "DumpLsa_loop lsa (w # names) =
     [LsarOpenSecret_call w (length w * 2), LsarOpenSecret_call w (length w * 2 + 2),
      SendError (LsarOpenSecret_failed (LsarOpenSecret lsa w (length w * 2 + 2)))]
     @ DumpLsa_loop lsa names"
  using assms by (simp add: DumpLsa_loop_def Let_def)

text \<open>\<open>lsaData\<close> is not reset between two names. When the query of the first name stores a
  pointer, the source releases it; when the query of the second name then succeeds and
  stores nothing, \<open>lsaData\<close> is not \<open>NULL\<close> and the source dumps the released memory and
  releases it again. \<open>DumpLSASecrets\<close>, which resets the pointer, writes the name only.\<close>

lemma NT_ok_0: "\<not> NT_failed 0"
  by (simp add: NT_failed_def)

lemma DumpLsa_keeps_released_pointer:
  "DumpLsa_loop two_secrets [[0x41], [0x42]] =
     [LsarOpenSecret_call [0x41] 2, LsarQuerySecret_call [0x41], WriteName [0x41],
      WriteRows (dump_bytes [0x70, 0x61, 0x73, 0x73]), LsarClose_call,
      LsarOpenSecret_call [0x42] 2, LsarQuerySecret_call [0x42], WriteName [0x42],
      DumpFreedMemory, FreeFreedMemory, LsarClose_call]"
  by (simp add: DumpLsa_loop_def two_secrets_def DumpLsa_body_def LsaFreeMemory_def NT_ok_0)

lemma DumpLSASecrets_resets_pointer:
  "DumpLSASecrets_loop two_secrets [[0x41], [0x42]] =
     [LsarOpenSecret_call [0x41] 2, LsarQuerySecret_call [0x41], WriteName [0x41],
      WriteRows (DumpSecretData [0x70, 0x61, 0x73, 0x73]), WriteBlankLine, LsarClose_call,
      LsarOpenSecret_call [0x42] 2, LsarQuerySecret_call [0x42], WriteName [0x42],
      LsarClose_call]"
  by (simp add: two_secrets_def DumpLSASecrets_body_def NT_ok_0)

lemma DumpLSASecrets_gives_up_silently:
  assumes "NT_failed (LsarOpenSecret lsa w (length w * 2))"
    and "NT_failed (LsarOpenSecret lsa w (length w * 2 + 2))"
  shows "DumpLSASecrets_loop lsa (w # names) =
     [LsarOpenSecret_call w (length w * 2), LsarOpenSecret_call w (length w * 2 + 2)]
     @ DumpLSASecrets_loop lsa names"
  using assms by (simp add: Let_def)

lemma STATUS_OBJECT_NAME_NOT_FOUND_failed: "NT_failed STATUS_OBJECT_NAME_NOT_FOUND"
  by (simp add: NT_failed_def STATUS_OBJECT_NAME_NOT_FOUND_def)

text \<open>
  Claim C8. The claim asks that a name whose open fails twice (with its length, then with
  the length increased by 2) is given up with an error recorded for it. For the secret
  named \<open>X\<close> in a policy store that refuses every open, \<open>DumpLSASecrets\<close> of DumpExt.c makes
  the two opens, of lengths 2 and 4, and records nothing; \<open>DumpLsa\<close> of dumplsa.c makes the
  same two opens and sends the error text with the status.
\<close>

theorem DumpLSASecrets_open_failure_unrecorded:
  "DumpLSASecrets_loop no_secret_opens [[0x58]] =
     [LsarOpenSecret_call [0x58] 2, LsarOpenSecret_call [0x58] 4] \<and>
   filter is_error_record (DumpLSASecrets_loop no_secret_opens [[0x58]]) = [] \<and>
   DumpLsa_loop no_secret_opens [[0x58]] =
     [LsarOpenSecret_call [0x58] 2, LsarOpenSecret_call [0x58] 4,
      SendError (LsarOpenSecret_failed STATUS_OBJECT_NAME_NOT_FOUND)]"
  by (simp add: DumpLsa_loop_def no_secret_opens_def STATUS_OBJECT_NAME_NOT_FOUND_failed
      is_error_record_def)

section \<open>Properties of the hash rendering and of the history loop\<close>

















declare history_loop.simps [simp del]

lemma history_loop_upt: "history_loop j n = [j..<n + 1]"
proof (induction j n rule: history_loop.induct)
  case (1 j dwHashes)
  show ?case
  proof (cases "j < dwHashes + 1")
    case True
    then have "[j..<dwHashes + 1] = j # [j + 1..<dwHashes + 1]"
      by (simp add: upt_conv_Cons)
    with True 1 show ?thesis
      by (subst history_loop.simps) simp
  next
    case False
    then show ?thesis
      by (subst history_loop.simps) simp
  qed
qed

lemma history_slots_of_eq:
  "history_slots_of nStatus blob =
     (if \<not> NT_failed nStatus \<and> 60 < length blob \<and> 0 < unat (blob ! 0x3C) div 16 \<and>
         unat (blob ! 0x3C) + 100 < length blob
      then [1..<unat (blob ! 0x3C) div 16 + 1] else [])"
  by (simp add: history_slots_of_def Let_def history_loop_upt)

lemma history_slot_not_log: "\<not> is_SamLog (history_slot sam u j)"
  by (simp add: history_slot_def Let_def is_SamLog_def split: option.splits)

lemma slots_no_log: "filter is_SamLog (map (history_slot sam u) js) = []"
  by (induction js) (simp_all add: history_slot_not_log)

lemma user_no_log: "filter is_SamLog (DumpPWHistoryHashes_user sam u) = []"
proof -
  have "\<not> is_SamLog (Fprintf_hash n r l t)" for n r l t
    by (simp add: is_SamLog_def)
  then show ?thesis
    by (simp add: DumpPWHistoryHashes_user_def Let_def slots_no_log)
qed

lemma users_no_log:
  "filter is_SamLog (concat (map (DumpPWHistoryHashes_user sam) us)) = []"
  by (induction us) (simp_all add: user_no_log)





text \<open>
  Claim C7, as amended. History retrieval for an account yields no history slot, and
  records no error, when \<open>SamIGetPrivateData\<close> fails, when the returned size is at most 60
  bytes, when the byte at offset \<open>0x3C\<close> divided by 16 is 0, or when the returned size is at
  most that byte plus 100 (the guard \<open>dwSize > dwOffset + 0x64\<close> of the source). Otherwise
  the loop goes through the slots 1 to (byte at \<open>0x3C\<close>) / 16, one loop iteration each, and
  their number is that byte divided by 16. No path of the loop over the accounts writes
  to the error log.
\<close>

theorem history_slot_count:
  "history_slots_of nStatus blob =
     (if \<not> NT_failed nStatus \<and> 60 < length blob \<and> 0 < unat (blob ! 0x3C) div 16 \<and>
         unat (blob ! 0x3C) + 100 < length blob
      then [1..<unat (blob ! 0x3C) div 16 + 1] else []) \<and>
   (\<not> NT_failed (SamrOpenUser_status u) \<and> \<not> NT_failed (SamrQueryInformationUser_status u) \<longrightarrow>
      tl (DumpPWHistoryHashes_user sam u) =
        map (history_slot sam u)
          (history_slots_of (SamIGetPrivateData_status u) (private_data u))) \<and>
   filter is_SamLog (DumpPWHistoryHashes_user sam u) = [] \<and>
   (history_functions_loaded sam \<and> \<not> NT_failed (LsaOpenPolicy_status sam) \<and>
    \<not> NT_failed (LsaQueryInformationPolicy_status sam) \<and> \<not> NT_failed (SamIConnect_status sam) \<and>
    \<not> NT_failed (SamrOpenDomain_status sam) \<longrightarrow>
      filter is_SamLog (DumpPWHistoryHashes sam) = [])"
proof (intro conjI impI)
  show "history_slots_of nStatus blob =
     (if \<not> NT_failed nStatus \<and> 60 < length blob \<and> 0 < unat (blob ! 0x3C) div 16 \<and>
         unat (blob ! 0x3C) + 100 < length blob
      then [1..<unat (blob ! 0x3C) div 16 + 1] else [])"
    by (rule history_slots_of_eq)
  show "filter is_SamLog (DumpPWHistoryHashes_user sam u) = []"
    by (rule user_no_log)
next
  assume "\<not> NT_failed (SamrOpenUser_status u) \<and> \<not> NT_failed (SamrQueryInformationUser_status u)"
  then show "tl (DumpPWHistoryHashes_user sam u) =
        map (history_slot sam u)
          (history_slots_of (SamIGetPrivateData_status u) (private_data u))"
    by (simp add: DumpPWHistoryHashes_user_def Let_def)
next
  assume "history_functions_loaded sam \<and> \<not> NT_failed (LsaOpenPolicy_status sam) \<and>
    \<not> NT_failed (LsaQueryInformationPolicy_status sam) \<and> \<not> NT_failed (SamIConnect_status sam) \<and>
    \<not> NT_failed (SamrOpenDomain_status sam)"
  then show "filter is_SamLog (DumpPWHistoryHashes sam) = []"
    by (simp add: DumpPWHistoryHashes_def users_no_log)
qed

theorem history_slot_count_witness:
  "history_slots_of 0 example_blob = [1, 2] \<and>
   tl (DumpPWHistoryHashes_user example_sam example_user) =
     map (history_slot example_sam example_user) [1, 2] \<and>
   filter is_SamLog (DumpPWHistoryHashes example_sam) = []"
proof -
  have b: "unat (example_blob ! 0x3C) = 32" "length example_blob = 200"
    by (simp_all add: example_blob_def nth_append EMPTY_NT_HASH_def EMPTY_LM_HASH_def)
  have upt: "[Suc 0..<3] = [Suc 0, 2]"
    by code_simp
  from history_slot_count[of 0 example_blob]
  have "history_slots_of 0 example_blob =
     (if \<not> NT_failed 0 \<and> 60 < length example_blob \<and> 0 < unat (example_blob ! 0x3C) div 16 \<and>
         unat (example_blob ! 0x3C) + 100 < length example_blob
      then [1..<unat (example_blob ! 0x3C) div 16 + 1] else [])"
    by blast
  then have s: "history_slots_of 0 example_blob = [1, 2]"
    unfolding b by (simp add: NT_ok_0 upt)
  have "\<not> NT_failed (SamrOpenUser_status example_user) \<and>
        \<not> NT_failed (SamrQueryInformationUser_status example_user)"
    by (simp add: example_user_def NT_ok_0)
  with history_slot_count[of _ _ example_user example_sam]
  have "tl (DumpPWHistoryHashes_user example_sam example_user) =
        map (history_slot example_sam example_user)
          (history_slots_of (SamIGetPrivateData_status example_user) (private_data example_user))"
    by blast
  moreover have "history_slots_of (SamIGetPrivateData_status example_user)
      (private_data example_user) = [1, 2]"
    using s by (simp add: example_user_def)
  ultimately have t: "tl (DumpPWHistoryHashes_user example_sam example_user) =
     map (history_slot example_sam example_user) [1, 2]"
    by simp
  have "history_functions_loaded example_sam \<and> \<not> NT_failed (LsaOpenPolicy_status example_sam) \<and>
    \<not> NT_failed (LsaQueryInformationPolicy_status example_sam) \<and>
    \<not> NT_failed (SamIConnect_status example_sam) \<and>
    \<not> NT_failed (SamrOpenDomain_status example_sam)"
    by (simp add: example_sam_def NT_ok_0)
  with history_slot_count[of _ _ _ example_sam]
  have l: "filter is_SamLog (DumpPWHistoryHashes example_sam) = []"
    by blast
  from s t l show ?thesis by blast
qed

text \<open>A blob of 100 bytes whose byte at \<open>0x3C\<close> is \<open>0x10\<close>: it is longer than 60 bytes and the
  byte divided by 16 is 1, yet no history slot is gone through, since 100 is not greater
  than \<open>0x10 + 0x64\<close>.\<close>

theorem history_slot_count_counterexample:
  "60 < length (replicate 60 0 @ [0x10] @ replicate 39 (0::byte)) \<and>
   unat ((replicate 60 0 @ [0x10] @ replicate 39 (0::byte)) ! 0x3C) div 16 = 1 \<and>
   length (history_slots_of 0 (replicate 60 0 @ [0x10] @ replicate 39 0)) = 0"
  by (simp add: history_slots_of_def Let_def nth_append NT_failed_def)


section \<open>Properties of the cache decoding\<close>

declare pad_loop.simps [simp del] copy_loop.simps [simp del]
  md5_blocks.simps [simp del] rc4_setup_loop.simps [simp del]

lemma pad_loop_Some:
  "j \<le> 64 \<Longrightarrow> 64 \<le> length pLsaKey \<Longrightarrow>
     pad_loop pLsaKey j (bKey1, bKey2) =
       Some (bKey1 @ map (\<lambda>b. b XOR 0x36) (take (64 - j) (drop j pLsaKey)),
             bKey2 @ map (\<lambda>b. b XOR 0x5c) (take (64 - j) (drop j pLsaKey)))"
proof (induction pLsaKey j "(bKey1, bKey2)" arbitrary: bKey1 bKey2 rule: pad_loop.induct)
  case (1 pLsaKey j bKey1 bKey2)
  show ?case
  proof (cases "j < 64")
    case True
    with "1.prems" have lt: "j < length pLsaKey" by simp
    have d: "take (64 - j) (drop j pLsaKey) =
               pLsaKey ! j # take (64 - (j + 1)) (drop (j + 1) pLsaKey)"
    proof -
      have "64 - j = Suc (64 - (j + 1))" using True by simp
      moreover have "drop j pLsaKey = pLsaKey ! j # drop (j + 1) pLsaKey"
        using lt by (simp add: Cons_nth_drop_Suc)
      ultimately show ?thesis by simp
    qed
    have "pad_loop pLsaKey j (bKey1, bKey2) =
            pad_loop pLsaKey (j + 1)
              (bKey1 @ [pLsaKey ! j XOR 0x36], bKey2 @ [pLsaKey ! j XOR 0x5c])"
      using True lt by (subst pad_loop.simps) simp
    also have "\<dots> = Some ((bKey1 @ [pLsaKey ! j XOR 0x36]) @
                 map (\<lambda>b. b XOR 0x36) (take (64 - (j + 1)) (drop (j + 1) pLsaKey)),
               (bKey2 @ [pLsaKey ! j XOR 0x5c]) @
                 map (\<lambda>b. b XOR 0x5c) (take (64 - (j + 1)) (drop (j + 1) pLsaKey)))"
      using True lt "1.prems" by (intro "1.hyps") simp_all
    finally show ?thesis unfolding d by simp
  next
    case False
    with "1.prems" have "j = 64" by simp
    then show ?thesis by (subst pad_loop.simps) simp
  qed
qed

lemma pad_loop_None:
  "j \<le> length pLsaKey \<Longrightarrow> length pLsaKey < 64 \<Longrightarrow> pad_loop pLsaKey j acc = None"
proof (induction pLsaKey j acc rule: pad_loop.induct)
  case (1 pLsaKey j bKey1 bKey2)
  show ?case
  proof (cases "j < length pLsaKey")
    case True
    with "1.prems" have "j < 64" by simp
    with True "1.prems" "1.IH" show ?thesis
      by (subst pad_loop.simps) simp
  next
    case False
    with "1.prems" show ?thesis
      by (subst pad_loop.simps) simp
  qed
qed

lemma hmac_pad_take:
  "64 \<le> length K \<Longrightarrow> hmac_pad c (take 64 K) = map (\<lambda>b. b XOR c) (take 64 K)"
  by (simp add: hmac_pad_def)

lemma DumpPWCache_decrypt_eq:
  assumes "64 \<le> length pLsaKey" "96 \<le> dwSize"
  shows "DumpPWCache_decrypt md5_digest rc4_crypt pLsaKey bCacheVal dwSize =
     Inr (hmac md5_digest (take 64 pLsaKey) (take 16 (drop 64 bCacheVal)),
          take 96 bCacheVal @
          rc4_crypt (hmac md5_digest (take 64 pLsaKey) (take 16 (drop 64 bCacheVal)))
              (take (dwSize - 96) (drop 96 bCacheVal)) @
          drop dwSize bCacheVal)"
proof -
  have "pad_loop pLsaKey 0 ([], []) =
          Some (map (\<lambda>b. b XOR 0x36) (take 64 pLsaKey), map (\<lambda>b. b XOR 0x5c) (take 64 pLsaKey))"
    using pad_loop_Some[of 0 pLsaKey "[]" "[]"] assms(1) by simp
  then show ?thesis
    using assms by (simp add: DumpPWCache_decrypt_def hmac_def hmac_pad_take Let_def)
qed

lemma DumpPWCache_decrypt_short_key:
  "length pLsaKey < 64 \<Longrightarrow>
     DumpPWCache_decrypt md5_digest rc4_crypt pLsaKey bCacheVal dwSize = Inl KeyReadBeyondSecret"
  by (simp add: DumpPWCache_decrypt_def pad_loop_None)

lemma copy_loop_from:
  "copy_loop buf base len (2 * k) =
     map (\<lambda>i. buf ! (base + 2 * i)) [k..<(len + 1) div 2]"
proof (induction "(len + 1) div 2 - k" arbitrary: k)
  case 0
  then have "\<not> 2 * k < len" by linarith
  moreover from 0 have "[k..<(len + 1) div 2] = []" by simp
  ultimately show ?case by (subst copy_loop.simps) simp
next
  case (Suc n)
  then have lt: "2 * k < len" and k: "k < (len + 1) div 2" by linarith+
  have "n = (len + 1) div 2 - (k + 1)" using Suc.hyps(2) by simp
  from Suc.hyps(1)[OF this]
  have "copy_loop buf base len (2 * (k + 1)) =
          map (\<lambda>i. buf ! (base + 2 * i)) [k + 1..<(len + 1) div 2]" .
  moreover have "[k..<(len + 1) div 2] = k # [k + 1..<(len + 1) div 2]"
    using k by (simp add: upt_conv_Cons)
  ultimately show ?case
    using lt by (subst copy_loop.simps) simp
qed

lemma copy_loop_eq:
  "copy_loop buf base len 0 = map (\<lambda>i. buf ! (base + 2 * i)) [0..<(len + 1) div 2]"
  using copy_loop_from[of buf base len 0] by simp

lemma name_fits: "len < 255 \<Longrightarrow> \<not> 128 \<le> length (copy_loop buf base len 0)"
  by (simp add: copy_loop_eq)

lemma name_overflows: "255 \<le> len \<Longrightarrow> 128 \<le> length (copy_loop buf base len 0)"
  by (simp add: copy_loop_eq)


lemma decrypted_header:
  assumes "96 \<le> length buf" "i < 96"
  shows "decrypted md5_digest rc4_crypt K buf n ! i = buf ! i"
proof -
  have "length (take 96 buf) = 96" using assms(1) by simp
  then have "(take 96 buf @ r) ! i = take 96 buf ! i" for r
    using assms(2) by (simp add: nth_append)
  then show ?thesis using assms(2) by (simp add: decrypted_def)
qed

lemma DumpPWCache_decrypt_decrypted:
  assumes "64 \<le> length pLsaKey" "96 \<le> dwSize"
  shows "DumpPWCache_decrypt md5_digest rc4_crypt pLsaKey bCacheVal dwSize =
     Inr (hmac md5_digest (take 64 pLsaKey) (take 16 (drop 64 bCacheVal)),
          decrypted md5_digest rc4_crypt pLsaKey bCacheVal dwSize)"
  using DumpPWCache_decrypt_eq[OF assms] by (simp add: decrypted_def)

lemma DumpPWCache_record_eq:
  assumes "64 \<le> length pLsaKey" "96 \<le> dwSize" "96 \<le> length bCacheVal" "bCacheVal ! 0 \<noteq> 0"
  shows "DumpPWCache_record md5_digest rc4_crypt pLsaKey bCacheVal dwSize =
     (case DumpPWCache_extract (decrypted md5_digest rc4_crypt pLsaKey bCacheVal dwSize)
             (unat (decrypted md5_digest rc4_crypt pLsaKey bCacheVal dwSize ! 0))
             (unat (decrypted md5_digest rc4_crypt pLsaKey bCacheVal dwSize ! 2))
             (unat (decrypted md5_digest rc4_crypt pLsaKey bCacheVal dwSize ! 60)) of
        Inl fault \<Rightarrow> Inl fault
      | Inr entry \<Rightarrow> Inr (decrypted md5_digest rc4_crypt pLsaKey bCacheVal dwSize, Some entry))"
proof -
  have nz: "unat (bCacheVal ! 0) \<noteq> 0" using assms(4) by (simp add: unat_eq_0)
  have sz: "dwSize \<noteq> 0" using assms(2) by simp
  have h: "decrypted md5_digest rc4_crypt pLsaKey bCacheVal dwSize ! 0 = bCacheVal ! 0"
    "decrypted md5_digest rc4_crypt pLsaKey bCacheVal dwSize ! 2 = bCacheVal ! 2"
    "decrypted md5_digest rc4_crypt pLsaKey bCacheVal dwSize ! 60 = bCacheVal ! 60"
    by (simp_all add: decrypted_header[OF assms(3)])
  show ?thesis
    unfolding DumpPWCache_record_def DumpPWCache_decrypt_decrypted[OF assms(1,2)] h
    using nz sz by (simp add: Let_def)
qed

lemma half_fits: "len < 255 \<Longrightarrow> \<not> 128 \<le> Suc len div 2"
  by arith

lemma DumpPWCache_extract_eq:
  assumes "dwUsername < 255" "dwDomain < 255" "dwDNSDomain < 255"
  shows "DumpPWCache_extract buf dwUsername dwDomain dwDNSDomain =
     Inr \<lparr>username = c_string (map (\<lambda>i. buf ! (168 + 2 * i)) [0..<(dwUsername + 1) div 2]),
          verifier = concat (map (\<lambda>j. fmt_02X (buf ! (96 + j))) [0..<16]),
          domain = c_string (map (\<lambda>i. buf ! (168 + dwUsername + 2 * ((dwUsername div 2) mod 2)
                                                 + 2 * i)) [0..<(dwDomain + 1) div 2]),
          dnsDomain = c_string (map (\<lambda>i. buf ! (168 + dwUsername + 2 * ((dwUsername div 2) mod 2)
                                                    + dwDomain + 2 * ((dwDomain div 2) mod 2) + 2 * i))
                                  [0..<(dwDNSDomain + 1) div 2])\<rparr>"
  using assms
  by (simp add: DumpPWCache_extract_def Let_def copy_loop_eq dwJoke0_def dwJoke1_def half_fits
      del: upt_rec_numeral)

lemma DumpPWCache_extract_overflow:
  assumes "255 \<le> dwUsername \<or> 255 \<le> dwDomain \<or> 255 \<le> dwDNSDomain"
  shows "DumpPWCache_extract buf dwUsername dwDomain dwDNSDomain = Inl NameBufferOverflow"
  using assms name_overflows
  by (auto simp: DumpPWCache_extract_def Let_def)

lemma byte_below_255: "(b::byte) \<noteq> 255 \<Longrightarrow> unat b < 255"
proof -
  assume "b \<noteq> 255"
  then have "unat b \<noteq> unat (255::byte)" by (simp add: word_unat_eq_iff)
  moreover have "unat b < 2 ^ LENGTH(8)" by (rule unsigned_less)
  ultimately show ?thesis by simp
qed

lemma record_skipped_iff:
  "(DumpPWCache_record md5_digest rc4_crypt pLsaKey bCacheVal dwSize = Inr (bCacheVal, None)) =
     (dwSize = 0 \<or> bCacheVal ! 0 = 0)"
  by (auto simp: DumpPWCache_record_def Let_def unat_eq_0 split: sum.splits prod.splits)

lemma record_entry:
  assumes "64 \<le> length pLsaKey" "96 \<le> dwSize" "96 \<le> length bCacheVal"
    and "bCacheVal ! 0 \<noteq> 0" "bCacheVal ! 0 \<noteq> 255" "bCacheVal ! 2 \<noteq> 255" "bCacheVal ! 60 \<noteq> 255"
  shows "\<exists>entry. DumpPWCache_record md5_digest rc4_crypt pLsaKey bCacheVal dwSize =
           Inr (decrypted md5_digest rc4_crypt pLsaKey bCacheVal dwSize, Some entry)"
proof -
  let ?d = "decrypted md5_digest rc4_crypt pLsaKey bCacheVal dwSize"
  have "unat (?d ! 0) < 255" "unat (?d ! 2) < 255" "unat (?d ! 60) < 255"
    using assms(5-7) by (simp_all add: decrypted_header[OF assms(3)] byte_below_255)
  from DumpPWCache_extract_eq[OF this, of ?d] DumpPWCache_record_eq[OF assms(1-4), of md5_digest rc4_crypt]
  show ?thesis by simp
qed

lemma loop_passes_over:
  assumes "length v \<le> 4096" "v = [] \<or> v ! 0 = 0"
  shows "DumpPWCache_loop md5_digest rc4_crypt pLsaKey bCacheVal (Some v # nl) =
     Inr None # DumpPWCache_loop md5_digest rc4_crypt pLsaKey (v @ drop (length v) bCacheVal) nl"
proof -
  have "length v = 0 \<or> (v @ drop (length v) bCacheVal) ! 0 = 0"
    using assms(2) by (cases v) auto
  then have "DumpPWCache_record md5_digest rc4_crypt pLsaKey (v @ drop (length v) bCacheVal) (length v) =
     Inr (v @ drop (length v) bCacheVal, None)"
    by (simp only: record_skipped_iff)
  then show ?thesis using assms(1) by simp
qed

lemma record_none_only_skipped:
  "DumpPWCache_record md5_digest rc4_crypt pLsaKey bCacheVal dwSize = Inr (b, None) \<Longrightarrow>
     dwSize = 0 \<or> bCacheVal ! 0 = 0"
  by (auto simp: DumpPWCache_record_def Let_def unat_eq_0 split: sum.splits prod.splits if_splits)

lemma loop_ends_over_4096:
  "4096 < length v \<Longrightarrow> DumpPWCache_loop md5_digest rc4_crypt pLsaKey bCacheVal (Some v # nl) = []"
  by simp

lemma loop_passes_over_iff:
  assumes "length v \<le> 4096"
  shows "(DumpPWCache_loop md5_digest rc4_crypt pLsaKey bCacheVal (Some v # nl) =
            Inr None # DumpPWCache_loop md5_digest rc4_crypt pLsaKey (v @ drop (length v) bCacheVal) nl) =
         (v = [] \<or> v ! 0 = 0)"
proof
  assume "v = [] \<or> v ! 0 = 0"
  with assms show "DumpPWCache_loop md5_digest rc4_crypt pLsaKey bCacheVal (Some v # nl) =
            Inr None # DumpPWCache_loop md5_digest rc4_crypt pLsaKey (v @ drop (length v) bCacheVal) nl"
    by (rule loop_passes_over[where md5_digest=md5_digest and rc4_crypt=rc4_crypt])
next
  let ?b = "v @ drop (length v) bCacheVal"
  assume a: "DumpPWCache_loop md5_digest rc4_crypt pLsaKey bCacheVal (Some v # nl) =
            Inr None # DumpPWCache_loop md5_digest rc4_crypt pLsaKey ?b nl"
  obtain r where r: "DumpPWCache_record md5_digest rc4_crypt pLsaKey ?b (length v) = r" by simp
  from a assms r have "\<exists>b. r = Inr (b, None)"
    by (cases r) (auto split: prod.splits)
  then obtain b where "DumpPWCache_record md5_digest rc4_crypt pLsaKey ?b (length v) = Inr (b, None)"
    using r by auto
  then have "length v = 0 \<or> ?b ! 0 = 0"
    by (rule record_none_only_skipped[where md5_digest=md5_digest and rc4_crypt=rc4_crypt])
  then show "v = [] \<or> v ! 0 = 0"
    by (cases v) auto
qed

lemma loop_entry:
  assumes "64 \<le> length pLsaKey" "96 \<le> length v" "length v \<le> 4096"
    and "v ! 0 \<noteq> 0" "v ! 0 \<noteq> 255" "v ! 2 \<noteq> 255" "v ! 60 \<noteq> 255"
  shows "\<exists>entry. DumpPWCache_loop md5_digest rc4_crypt pLsaKey bCacheVal (Some v # nl) =
           Inr (Some entry) #
           DumpPWCache_loop md5_digest rc4_crypt pLsaKey
             (decrypted md5_digest rc4_crypt pLsaKey (v @ drop (length v) bCacheVal) (length v)) nl"
proof -
  let ?b = "v @ drop (length v) bCacheVal"
  have n: "?b ! 0 = v ! 0" "?b ! 2 = v ! 2" "?b ! 60 = v ! 60"
    using assms(2) by (auto simp: nth_append)
  have l: "96 \<le> length ?b" using assms(2) by simp
  from record_entry[where md5_digest=md5_digest and rc4_crypt=rc4_crypt, OF assms(1,2) l]
    assms(4-7)
  obtain entry where "DumpPWCache_record md5_digest rc4_crypt pLsaKey ?b (length v) =
      Inr (decrypted md5_digest rc4_crypt pLsaKey ?b (length v), Some entry)"
    unfolding n by blast
  then have "DumpPWCache_loop md5_digest rc4_crypt pLsaKey bCacheVal (Some v # nl) =
           Inr (Some entry) #
           DumpPWCache_loop md5_digest rc4_crypt pLsaKey
             (decrypted md5_digest rc4_crypt pLsaKey ?b (length v)) nl"
    using assms(3) by simp
  then show ?thesis ..
qed


subsection \<open>The instances of the digest and of the cipher\<close>

text \<open>The digest of \<open>abc\<close> from the test suite of RFC 1321, and the widely published
  test vector of RC4 for the key \<open>Key\<close> and the text \<open>Plaintext\<close>.\<close>

lemma MD5_abc:
  "MD5 [0x61, 0x62, 0x63] =
     [0x90, 0x01, 0x50, 0x98, 0x3C, 0xD2, 0x4F, 0xB0, 0xD6, 0x96, 0x3F, 0x7D, 0x28, 0xE1, 0x7F,
      0x72]"
  by code_simp

lemma RC4_Key_Plaintext:
  "RC4 [0x4B, 0x65, 0x79] [0x50, 0x6C, 0x61, 0x69, 0x6E, 0x74, 0x65, 0x78, 0x74] =
     [0xBB, 0xF3, 0x16, 0xE8, 0xD9, 0x40, 0xAF, 0x0A, 0xD3]"
  by code_simp

subsection \<open>The example record\<close>

lemma example_lengths:
  "length example_key = 64" "length example_header = 96" "length example_ciphertext = 92"
  "length example_record = 188" "length example_buffer = 4096"
  by (simp_all add: example_key_def example_header_def example_ciphertext_def
      example_record_def example_buffer_def)

lemma example_parts:
  "take 96 example_buffer = example_header"
  "take 16 (drop 64 example_buffer) = take 16 (drop 64 example_header)"
  "take (188 - 96) (drop 96 example_buffer) = example_ciphertext"
  "drop 188 example_buffer = replicate 3908 0xCC"
  by (simp_all add: example_buffer_def example_record_def example_lengths)

lemma example_session_key:
  "hmac MD5 (take 64 example_key) (take 16 (drop 64 example_header)) = [0xBE, 0x81, 0x3B, 0x50, 0x11, 0x1E, 0x8E, 0xAD, 0xDC, 0xCD, 0xF6, 0x8B, 0x06, 0xAC, 0xF1, 0x7E]"
  by code_simp

lemma example_decryption: "RC4 [0xBE, 0x81, 0x3B, 0x50, 0x11, 0x1E, 0x8E, 0xAD, 0xDC, 0xCD, 0xF6, 0x8B, 0x06, 0xAC, 0xF1, 0x7E] example_ciphertext = example_plaintext"
  by code_simp

lemma example_decrypted:
  "decrypted MD5 RC4 example_key example_buffer 188 =
     example_header @ example_plaintext @ replicate 3908 0xCC"
  unfolding decrypted_def example_parts example_session_key example_decryption ..

lemma example_fields:
  "\<lparr>username = c_string (map (\<lambda>i. (example_header @ example_plaintext @ rest)
                                       ! (168 + 2 * i)) [0..<(8 + 1) div 2]),
    verifier = concat (map (\<lambda>j. fmt_02X ((example_header @ example_plaintext @
                                       rest) ! (96 + j))) [0..<16]),
    domain = c_string (map (\<lambda>i. (example_header @ example_plaintext @ rest)
                                     ! (168 + 8 + 2 * ((8 div 2) mod 2) + 2 * i))
                         [0..<(4 + 1) div 2]),
    dnsDomain = c_string (map (\<lambda>i. (example_header @ example_plaintext @ rest)
                                        ! (168 + 8 + 2 * ((8 div 2) mod 2) + 4 +
                                           2 * ((4 div 2) mod 2) + 2 * i))
                            [0..<(6 + 1) div 2])\<rparr> =
   \<lparr>username = ''user'', verifier = ''101112131415161718191A1B1C1D1E1F'', domain = ''AD'',
    dnsDomain = ''x.y''\<rparr>"
  by code_simp

lemma example_header_bytes:
  "example_buffer ! 0 = 8" "example_buffer ! 2 = 4" "example_buffer ! 60 = 6"
  "(example_header @ example_plaintext @ replicate 3908 0xCC) ! 0 = 8"
  "(example_header @ example_plaintext @ replicate 3908 0xCC) ! 2 = 4"
  "(example_header @ example_plaintext @ replicate 3908 0xCC) ! 60 = 6"
  by (simp_all add: example_buffer_def example_record_def example_header_def)

lemma RC4_nothing: "RC4 key [] = []"
  by (simp only: RC4_def rc4_crypt_loop.simps)

text \<open>
  Claim C1, as amended. The loop of the source reads 64 bytes of key material at
  \<open>pLsaKey\<close>. For every secret of at least 64 bytes and every record of at least 96 bytes
  that reaches the decryption, \<open>bDigest\<close> is the HMAC, with the digest \<open>md5_digest\<close> and the first 64
  bytes of the secret as the key, of the 16 bytes at offset 64 of the record:
  the inner pad is the key XOR \<open>0x36\<close>, the outer pad the key XOR \<open>0x5c\<close>, the inner digest is
  \<open>md5_digest (inner pad || record[64:80])\<close> and the session key \<open>md5_digest (outer pad || inner digest)\<close>;
  and the bytes of the record from offset 96 to its end are replaced by their image under
  \<open>rc4_crypt\<close> with that session key, all other bytes of the buffer staying as they were. With a
  secret shorter than 64 bytes, a 16-byte one for instance, the loop reads beyond the
  secret.
\<close>

theorem cache_session_key:
  "(64 \<le> length pLsaKey \<and> 96 \<le> dwSize \<longrightarrow>
      DumpPWCache_decrypt md5_digest rc4_crypt pLsaKey bCacheVal dwSize =
        Inr (hmac md5_digest (take 64 pLsaKey) (take 16 (drop 64 bCacheVal)),
             take 96 bCacheVal @
             rc4_crypt (hmac md5_digest (take 64 pLsaKey) (take 16 (drop 64 bCacheVal)))
                 (take (dwSize - 96) (drop 96 bCacheVal)) @
             drop dwSize bCacheVal)) \<and>
   (length K = 64 \<longrightarrow>
      hmac md5_digest K text =
        md5_digest (map (\<lambda>b. b XOR 0x5c) K @ md5_digest (map (\<lambda>b. b XOR 0x36) K @ text))) \<and>
   (length pLsaKey < 64 \<longrightarrow>
      DumpPWCache_decrypt md5_digest rc4_crypt pLsaKey bCacheVal dwSize = Inl KeyReadBeyondSecret)"
proof (intro conjI impI)
  assume "64 \<le> length pLsaKey \<and> 96 \<le> dwSize"
  then show "DumpPWCache_decrypt md5_digest rc4_crypt pLsaKey bCacheVal dwSize =
        Inr (hmac md5_digest (take 64 pLsaKey) (take 16 (drop 64 bCacheVal)),
             take 96 bCacheVal @
             rc4_crypt (hmac md5_digest (take 64 pLsaKey) (take 16 (drop 64 bCacheVal)))
                 (take (dwSize - 96) (drop 96 bCacheVal)) @
             drop dwSize bCacheVal)"
    by (elim conjE) (rule DumpPWCache_decrypt_eq[where md5_digest=md5_digest and rc4_crypt=rc4_crypt])
next
  assume "length K = 64"
  then show "hmac md5_digest K text =
        md5_digest (map (\<lambda>b. b XOR 0x5c) K @ md5_digest (map (\<lambda>b. b XOR 0x36) K @ text))"
    by (simp add: hmac_def hmac_pad_def)
next
  assume "length pLsaKey < 64"
  then show "DumpPWCache_decrypt md5_digest rc4_crypt pLsaKey bCacheVal dwSize = Inl KeyReadBeyondSecret"
    by (rule DumpPWCache_decrypt_short_key[where md5_digest=md5_digest and rc4_crypt=rc4_crypt])
qed

theorem cache_session_key_witness:
  "DumpPWCache_decrypt MD5 RC4 example_key example_buffer 188 =
     Inr ([0xBE, 0x81, 0x3B, 0x50, 0x11, 0x1E, 0x8E, 0xAD, 0xDC, 0xCD, 0xF6, 0x8B, 0x06, 0xAC, 0xF1, 0x7E],
          example_header @ example_plaintext @ replicate 3908 0xCC)"
proof -
  have h: "64 \<le> length example_key \<and> (96::nat) \<le> 188"
    by (simp add: example_lengths)
  have "DumpPWCache_decrypt MD5 RC4 example_key example_buffer 188 =
        Inr (hmac MD5 (take 64 example_key) (take 16 (drop 64 example_buffer)),
             take 96 example_buffer @
             RC4 (hmac MD5 (take 64 example_key) (take 16 (drop 64 example_buffer)))
                 (take (188 - 96) (drop 96 example_buffer)) @
             drop 188 example_buffer)"
    by (rule cache_session_key[where md5_digest=MD5 and rc4_crypt=RC4 and pLsaKey=example_key and dwSize=188
        and bCacheVal=example_buffer, THEN conjunct1, THEN mp, OF h])
  then show ?thesis
    unfolding example_parts example_session_key example_decryption .
qed

text \<open>With a master key of 16 bytes, as the claim has it, no session key is derived: the
  loop over \<open>j < 64\<close> reads \<open>pLsaKey[16]\<close>, beyond the secret.\<close>

theorem cache_session_key_counterexample:
  "length (replicate 16 0x0B :: byte list) = 16 \<and>
   DumpPWCache_decrypt MD5 RC4 (replicate 16 0x0B) example_buffer 188 = Inl KeyReadBeyondSecret"
proof
  show "length (replicate 16 0x0B :: byte list) = 16" by simp
  have "length (replicate 16 0x0B :: byte list) < 64" by simp
  then show "DumpPWCache_decrypt MD5 RC4 (replicate 16 0x0B) example_buffer 188 =
      Inl KeyReadBeyondSecret"
    by (rule DumpPWCache_decrypt_short_key[where md5_digest=MD5 and rc4_crypt=RC4])
qed

text \<open>
  Claim C2, as amended. The loop over the cached records ends, reading no further value, at
  the first name that is absent or whose value is longer than the buffer of 4096 bytes
  (\<open>RegQueryValueEx\<close> fails and the source leaves the loop). For a value of at most 4096
  bytes, the loop passes over the record, writing nothing and going on with the next value,
  exactly when the size of the record is 0 or its byte at offset 0 (the username length) is
  0. The three lengths are never compared with the size of the record: every value of 96
  to 4096 bytes whose byte at offset 0 is neither 0 nor 255 and whose bytes at offsets 2
  and 60 are not 255 yields an entry (given a secret of at least 64 bytes), whether or not
  the three lengths stay within the record, and the loop goes on with the next value;
  bytes beyond the record are then read from what the buffer held before.
\<close>

theorem cache_record_guards:
  "DumpPWCache_loop md5_digest rc4_crypt pLsaKey bCacheVal (None # nl) = [] \<and>
   (4096 < length v \<longrightarrow>
      DumpPWCache_loop md5_digest rc4_crypt pLsaKey bCacheVal (Some v # nl) = []) \<and>
   (length v \<le> 4096 \<longrightarrow>
      (DumpPWCache_loop md5_digest rc4_crypt pLsaKey bCacheVal (Some v # nl) =
         Inr None #
         DumpPWCache_loop md5_digest rc4_crypt pLsaKey (v @ drop (length v) bCacheVal) nl) =
      (v = [] \<or> v ! 0 = 0)) \<and>
   (64 \<le> length pLsaKey \<and> 96 \<le> length v \<and> length v \<le> 4096 \<and>
    v ! 0 \<noteq> 0 \<and> v ! 0 \<noteq> 255 \<and> v ! 2 \<noteq> 255 \<and> v ! 60 \<noteq> 255 \<longrightarrow>
      (\<exists>entry. DumpPWCache_loop md5_digest rc4_crypt pLsaKey bCacheVal (Some v # nl) =
         Inr (Some entry) #
         DumpPWCache_loop md5_digest rc4_crypt pLsaKey
           (decrypted md5_digest rc4_crypt pLsaKey (v @ drop (length v) bCacheVal) (length v)) nl))"
proof (intro conjI impI)
  show "DumpPWCache_loop md5_digest rc4_crypt pLsaKey bCacheVal (None # nl) = []"
    by (rule DumpPWCache_loop.simps(2))
next
  assume "4096 < length v"
  then show "DumpPWCache_loop md5_digest rc4_crypt pLsaKey bCacheVal (Some v # nl) = []"
    by (rule loop_ends_over_4096[where md5_digest=md5_digest and rc4_crypt=rc4_crypt])
next
  assume "length v \<le> 4096"
  then show "(DumpPWCache_loop md5_digest rc4_crypt pLsaKey bCacheVal (Some v # nl) =
         Inr None #
         DumpPWCache_loop md5_digest rc4_crypt pLsaKey (v @ drop (length v) bCacheVal) nl) =
      (v = [] \<or> v ! 0 = 0)"
    by (rule loop_passes_over_iff[where md5_digest=md5_digest and rc4_crypt=rc4_crypt])
next
  assume "64 \<le> length pLsaKey \<and> 96 \<le> length v \<and> length v \<le> 4096 \<and>
    v ! 0 \<noteq> 0 \<and> v ! 0 \<noteq> 255 \<and> v ! 2 \<noteq> 255 \<and> v ! 60 \<noteq> 255"
  then show "\<exists>entry. DumpPWCache_loop md5_digest rc4_crypt pLsaKey bCacheVal (Some v # nl) =
         Inr (Some entry) #
         DumpPWCache_loop md5_digest rc4_crypt pLsaKey
           (decrypted md5_digest rc4_crypt pLsaKey (v @ drop (length v) bCacheVal) (length v)) nl"
    by (elim conjE) (rule loop_entry[where md5_digest=md5_digest and rc4_crypt=rc4_crypt])
qed

theorem cache_record_guards_witness:
  "DumpPWCache_loop MD5 RC4 example_key example_buffer [Some [0, 0x41, 0x42], Some []] =
     [Inr None, Inr None] \<and>
   DumpPWCache_loop MD5 RC4 example_key example_buffer
     [Some [0, 0x41, 0x42], Some (replicate 4097 0x41), Some []] = [Inr None] \<and>
   (\<exists>entry. DumpPWCache_loop MD5 RC4 example_key example_buffer [Some example_record] =
      [Inr (Some entry)])"
proof -
  let ?v = "[0, 0x41, 0x42] :: byte list"
  let ?w = "replicate 4097 0x41 :: byte list"
  let ?b = "?v @ drop (length ?v) example_buffer"
  note ends = cache_record_guards[where md5_digest=MD5 and rc4_crypt=RC4 and pLsaKey=example_key,
      THEN conjunct2, THEN conjunct1, THEN mp]
  note passes = cache_record_guards[where md5_digest=MD5 and rc4_crypt=RC4 and pLsaKey=example_key,
      THEN conjunct2, THEN conjunct2, THEN conjunct1, THEN mp, THEN iffD2]
  have lv: "length ?v \<le> 4096" and sv: "?v = [] \<or> ?v ! 0 = 0" by simp_all
  have le: "length ([] :: byte list) \<le> 4096"
    and se: "([] :: byte list) = [] \<or> ([] :: byte list) ! 0 = 0" by simp_all
  have lw: "4096 < length ?w" by simp
  have first: "DumpPWCache_loop MD5 RC4 example_key example_buffer (Some ?v # nl) =
        Inr None # DumpPWCache_loop MD5 RC4 example_key ?b nl" for nl
    by (rule passes[OF lv sv])
  have "DumpPWCache_loop MD5 RC4 example_key ?b [Some []] =
        Inr None # DumpPWCache_loop MD5 RC4 example_key
          ([] @ drop (length ([] :: byte list)) ?b) []"
    by (rule passes[OF le se])
  also have "DumpPWCache_loop MD5 RC4 example_key
          ([] @ drop (length ([] :: byte list)) ?b) [] = []"
    by (rule DumpPWCache_loop.simps(1))
  finally have second: "DumpPWCache_loop MD5 RC4 example_key ?b [Some []] = [Inr None]" .
  have a: "DumpPWCache_loop MD5 RC4 example_key example_buffer [Some ?v, Some []] =
     [Inr None, Inr None]"
    by (simp only: first second)
  have third: "DumpPWCache_loop MD5 RC4 example_key ?b [Some ?w, Some []] = []"
    by (rule ends[OF lw])
  have b: "DumpPWCache_loop MD5 RC4 example_key example_buffer
     [Some ?v, Some ?w, Some []] = [Inr None]"
    by (simp only: first third)
  have hw: "64 \<le> length example_key \<and> 96 \<le> length example_record \<and>
    length example_record \<le> 4096 \<and>
    example_record ! 0 \<noteq> 0 \<and> example_record ! 0 \<noteq> 255 \<and> example_record ! 2 \<noteq> 255 \<and>
    example_record ! 60 \<noteq> 255"
    by (simp add: example_lengths) (simp add: example_record_def example_header_def)
  from cache_record_guards[where md5_digest=MD5 and rc4_crypt=RC4 and pLsaKey=example_key
      and bCacheVal=example_buffer and v=example_record and nl="[]",
      THEN conjunct2, THEN conjunct2, THEN conjunct2, THEN mp, OF hw]
  have c: "\<exists>entry. DumpPWCache_loop MD5 RC4 example_key example_buffer [Some example_record] =
      [Inr (Some entry)]"
    by (simp only: DumpPWCache_loop.simps(1))
  from a b c show ?thesis by (intro conjI)
qed

text \<open>A record of 96 bytes whose username length is 4, stored in a buffer that held \<open>0x41\<close>
  in every byte: by the claim the decoding fails, since the record is not longer than 96
  bytes and the username would be read at offset 168, beyond it. The source writes an
  entry, with the username \<open>AA\<close> read from the bytes the buffer held before.\<close>

theorem cache_record_guards_counterexample:
  "length (4 # replicate 95 (0::byte)) \<le> 96 \<and>
   DumpPWCache_record MD5 RC4 example_key ((4 # replicate 95 0) @ replicate 4000 0x41) 96 =
     Inr ((4 # replicate 95 0) @ replicate 4000 0x41,
          Some \<lparr>username = ''AA'', verifier = ''41414141414141414141414141414141'',
                domain = [], dnsDomain = []\<rparr>) \<and>
   DumpPWCache_loop MD5 RC4 example_key (replicate 4096 0x41) [Some (4 # replicate 95 0)] =
     [Inr (Some \<lparr>username = ''AA'', verifier = ''41414141414141414141414141414141'',
                   domain = [], dnsDomain = []\<rparr>)]"
proof -
  let ?b = "(4 # replicate 95 0) @ replicate 4000 0x41 :: byte list"
  let ?e = "\<lparr>username = ''AA'', verifier = ''41414141414141414141414141414141'',
      domain = [], dnsDomain = []\<rparr>"
  have split: "?b = (4 # replicate 95 0) @ replicate 88 0x41 @ replicate 3912 0x41"
    by (simp add: replicate_add[symmetric])
  have d: "decrypted MD5 RC4 example_key ?b 96 = ?b"
    by (simp add: decrypted_def RC4_nothing)
  have h: "?b ! 0 = 4" "?b ! 2 = 0" "?b ! 60 = 0"
    by (simp_all add: nth_append nth_Cons')
  have u: "unat (4::byte) = 4" "unat (0::byte) = 0"
    by simp_all
  have "DumpPWCache_record MD5 RC4 example_key ?b 96 =
     (case DumpPWCache_extract (decrypted MD5 RC4 example_key ?b 96)
             (unat (decrypted MD5 RC4 example_key ?b 96 ! 0))
             (unat (decrypted MD5 RC4 example_key ?b 96 ! 2))
             (unat (decrypted MD5 RC4 example_key ?b 96 ! 60)) of
        Inl fault \<Rightarrow> Inl fault
      | Inr entry \<Rightarrow> Inr (decrypted MD5 RC4 example_key ?b 96, Some entry))"
    by (rule DumpPWCache_record_eq[where md5_digest=MD5 and rc4_crypt=RC4]) (simp_all add: example_lengths)
  then have r: "DumpPWCache_record MD5 RC4 example_key ?b 96 =
     (case DumpPWCache_extract ?b 4 0 0 of
        Inl fault \<Rightarrow> Inl fault | Inr entry \<Rightarrow> Inr (?b, Some entry))"
    unfolding d h u .
  have f: "\<lparr>username = c_string (map (\<lambda>i. ((4 # replicate 95 0) @ replicate 88 0x41 @ rest)
                                            ! (168 + 2 * i)) [0..<(4 + 1) div 2]),
          verifier = concat (map (\<lambda>j. fmt_02X (((4 # replicate 95 0) @ replicate 88 0x41 @ rest)
                                            ! (96 + j))) [0..<16]),
          domain = c_string (map (\<lambda>i. ((4 # replicate 95 0) @ replicate 88 0x41 @ rest)
                                          ! (168 + 4 + 2 * ((4 div 2) mod 2) + 2 * i))
                               [0..<(0 + 1) div 2]),
          dnsDomain = c_string (map (\<lambda>i. ((4 # replicate 95 0) @ replicate 88 0x41 @ rest)
                                             ! (168 + 4 + 2 * ((4 div 2) mod 2) + 0 +
                                                2 * ((0 div 2) mod 2) + 2 * i))
                                  [0..<(0 + 1) div 2])\<rparr> = ?e" for rest :: "byte list"
    by code_simp
  have "DumpPWCache_extract ((4 # replicate 95 0) @ replicate 88 0x41 @ replicate 3912 0x41)
          4 0 0 = Inr ?e"
    using DumpPWCache_extract_eq[of 4 0 0
        "(4 # replicate 95 0) @ replicate 88 0x41 @ replicate 3912 0x41"]
    unfolding f by simp
  then have x: "DumpPWCache_extract ?b 4 0 0 = Inr ?e"
    unfolding split[symmetric] .
  have rec: "DumpPWCache_record MD5 RC4 example_key ?b 96 = Inr (?b, Some ?e)"
    unfolding r x by simp
  have len: "length (4 # replicate 95 (0::byte)) = 96" by simp
  have stored: "(4 # replicate 95 0) @ drop 96 (replicate 4096 0x41) = ?b" by simp
  have "DumpPWCache_loop MD5 RC4 example_key (replicate 4096 0x41) [Some (4 # replicate 95 0)] =
     (case DumpPWCache_record MD5 RC4 example_key ?b 96 of
        Inl fault \<Rightarrow> [Inl fault]
      | Inr (bCacheVal', entry) \<Rightarrow> Inr entry # DumpPWCache_loop MD5 RC4 example_key bCacheVal' [])"
    unfolding DumpPWCache_loop.simps(3) len stored by simp
  then have loop: "DumpPWCache_loop MD5 RC4 example_key (replicate 4096 0x41)
      [Some (4 # replicate 95 0)] = [Inr (Some ?e)]"
    unfolding rec by simp
  have "length (4 # replicate 95 (0::byte)) \<le> 96" by simp
  from this rec loop show ?thesis by (intro conjI)
qed

text \<open>
  Claim C3, as amended. For a record that is decoded, the three lengths the source uses are the bytes
  at offsets 0, 2 and 60 of the buffer after the decryption (the decryption leaves the
  first 96 bytes as they were, so these are the bytes read before it). The username is
  made of the bytes at offsets \<open>168 + 2 i\<close>, the domain of the bytes at
  \<open>168 + usernameLen + pad1 + 2 i\<close>, and the DNS domain of the bytes at
  \<open>168 + usernameLen + pad1 + domainLen + pad2 + 2 i\<close>, for \<open>2 i\<close> below the respective
  length, with \<open>pad1 = 2 * ((usernameLen / 2) mod 2)\<close> and
  \<open>pad2 = 2 * ((domainLen / 2) mod 2)\<close>; each name is printed up to its first zero byte.
  For the lengths 8 and 4 both paddings are 0 (4 / 2 = 2 and 2 mod 2 = 0); a domain
  length of 6 gives the padding 2.
\<close>

theorem cache_field_layout:
  "(dwUsername < 255 \<and> dwDomain < 255 \<and> dwDNSDomain < 255 \<longrightarrow>
      DumpPWCache_extract buf dwUsername dwDomain dwDNSDomain =
        Inr \<lparr>username = c_string (map (\<lambda>i. buf ! (168 + 2 * i)) [0..<(dwUsername + 1) div 2]),
             verifier = concat (map (\<lambda>j. fmt_02X (buf ! (96 + j))) [0..<16]),
             domain = c_string (map (\<lambda>i. buf ! (168 + dwUsername +
                                   2 * ((dwUsername div 2) mod 2) + 2 * i))
                                 [0..<(dwDomain + 1) div 2]),
             dnsDomain = c_string (map (\<lambda>i. buf ! (168 + dwUsername +
                                   2 * ((dwUsername div 2) mod 2) + dwDomain +
                                   2 * ((dwDomain div 2) mod 2) + 2 * i))
                                 [0..<(dwDNSDomain + 1) div 2])\<rparr>) \<and>
   (64 \<le> length pLsaKey \<and> 96 \<le> dwSize \<and> 96 \<le> length bCacheVal \<and> bCacheVal ! 0 \<noteq> 0 \<longrightarrow>
      DumpPWCache_record md5_digest rc4_crypt pLsaKey bCacheVal dwSize =
        (case DumpPWCache_extract (decrypted md5_digest rc4_crypt pLsaKey bCacheVal dwSize)
                (unat (decrypted md5_digest rc4_crypt pLsaKey bCacheVal dwSize ! 0))
                (unat (decrypted md5_digest rc4_crypt pLsaKey bCacheVal dwSize ! 2))
                (unat (decrypted md5_digest rc4_crypt pLsaKey bCacheVal dwSize ! 60)) of
           Inl fault \<Rightarrow> Inl fault
         | Inr entry \<Rightarrow> Inr (decrypted md5_digest rc4_crypt pLsaKey bCacheVal dwSize, Some entry))) \<and>
   dwJoke0 8 = 0 \<and> dwJoke1 4 = 0 \<and> dwJoke1 6 = 2"
proof (intro conjI impI)
  assume "dwUsername < 255 \<and> dwDomain < 255 \<and> dwDNSDomain < 255"
  then show "DumpPWCache_extract buf dwUsername dwDomain dwDNSDomain =
        Inr \<lparr>username = c_string (map (\<lambda>i. buf ! (168 + 2 * i)) [0..<(dwUsername + 1) div 2]),
             verifier = concat (map (\<lambda>j. fmt_02X (buf ! (96 + j))) [0..<16]),
             domain = c_string (map (\<lambda>i. buf ! (168 + dwUsername +
                                   2 * ((dwUsername div 2) mod 2) + 2 * i))
                                 [0..<(dwDomain + 1) div 2]),
             dnsDomain = c_string (map (\<lambda>i. buf ! (168 + dwUsername +
                                   2 * ((dwUsername div 2) mod 2) + dwDomain +
                                   2 * ((dwDomain div 2) mod 2) + 2 * i))
                                 [0..<(dwDNSDomain + 1) div 2])\<rparr>"
    by (elim conjE) (rule DumpPWCache_extract_eq)
next
  assume "64 \<le> length pLsaKey \<and> 96 \<le> dwSize \<and> 96 \<le> length bCacheVal \<and> bCacheVal ! 0 \<noteq> 0"
  then show "DumpPWCache_record md5_digest rc4_crypt pLsaKey bCacheVal dwSize =
        (case DumpPWCache_extract (decrypted md5_digest rc4_crypt pLsaKey bCacheVal dwSize)
                (unat (decrypted md5_digest rc4_crypt pLsaKey bCacheVal dwSize ! 0))
                (unat (decrypted md5_digest rc4_crypt pLsaKey bCacheVal dwSize ! 2))
                (unat (decrypted md5_digest rc4_crypt pLsaKey bCacheVal dwSize ! 60)) of
           Inl fault \<Rightarrow> Inl fault
         | Inr entry \<Rightarrow> Inr (decrypted md5_digest rc4_crypt pLsaKey bCacheVal dwSize, Some entry))"
    by (elim conjE) (rule DumpPWCache_record_eq[where md5_digest=md5_digest and rc4_crypt=rc4_crypt])
next
  show "dwJoke0 8 = 0" by (simp add: dwJoke0_def)
  show "dwJoke1 4 = 0" by (simp add: dwJoke1_def)
  show "dwJoke1 6 = 2" by (simp add: dwJoke1_def)
qed

theorem cache_field_layout_witness:
  "DumpPWCache_record MD5 RC4 example_key example_buffer 188 =
     Inr (example_header @ example_plaintext @ replicate 3908 0xCC,
          Some \<lparr>username = ''user'', verifier = ''101112131415161718191A1B1C1D1E1F'',
                domain = ''AD'', dnsDomain = ''x.y''\<rparr>)"
proof -
  let ?d = "example_header @ example_plaintext @ replicate 3908 0xCC"
  let ?e = "\<lparr>username = ''user'', verifier = ''101112131415161718191A1B1C1D1E1F'',
          domain = ''AD'', dnsDomain = ''x.y''\<rparr>"
  have hl: "(8::nat) < 255 \<and> (4::nat) < 255 \<and> (6::nat) < 255" by simp
  have "DumpPWCache_extract ?d 8 4 6 =
        Inr \<lparr>username = c_string (map (\<lambda>i. ?d ! (168 + 2 * i)) [0..<(8 + 1) div 2]),
             verifier = concat (map (\<lambda>j. fmt_02X (?d ! (96 + j))) [0..<16]),
             domain = c_string (map (\<lambda>i. ?d ! (168 + 8 + 2 * ((8 div 2) mod 2) + 2 * i))
                                 [0..<(4 + 1) div 2]),
             dnsDomain = c_string (map (\<lambda>i. ?d ! (168 + 8 + 2 * ((8 div 2) mod 2) + 4 +
                                   2 * ((4 div 2) mod 2) + 2 * i))
                                 [0..<(6 + 1) div 2])\<rparr>"
    by (rule cache_field_layout[THEN conjunct1, THEN mp, OF hl])
  then have e: "DumpPWCache_extract ?d 8 4 6 = Inr ?e"
    unfolding example_fields .
  have u: "unat (8::byte) = 8" "unat (4::byte) = 4" "unat (6::byte) = 6"
    by simp_all
  have hr: "64 \<le> length example_key \<and> (96::nat) \<le> 188 \<and> 96 \<le> length example_buffer \<and>
    example_buffer ! 0 \<noteq> 0"
    by (simp add: example_lengths example_header_bytes)
  have "DumpPWCache_record MD5 RC4 example_key example_buffer 188 =
        (case DumpPWCache_extract (decrypted MD5 RC4 example_key example_buffer 188)
                (unat (decrypted MD5 RC4 example_key example_buffer 188 ! 0))
                (unat (decrypted MD5 RC4 example_key example_buffer 188 ! 2))
                (unat (decrypted MD5 RC4 example_key example_buffer 188 ! 60)) of
           Inl fault \<Rightarrow> Inl fault
         | Inr entry \<Rightarrow> Inr (decrypted MD5 RC4 example_key example_buffer 188, Some entry))"
    by (rule cache_field_layout[where md5_digest=MD5 and rc4_crypt=RC4 and pLsaKey=example_key
        and dwSize=188 and bCacheVal=example_buffer, THEN conjunct2, THEN conjunct1, THEN mp,
        OF hr])
  then have "DumpPWCache_record MD5 RC4 example_key example_buffer 188 =
        (case DumpPWCache_extract ?d 8 4 6 of
           Inl fault \<Rightarrow> Inl fault | Inr entry \<Rightarrow> Inr (?d, Some entry))"
    unfolding example_decrypted example_header_bytes u .
  then show ?thesis
    unfolding e by simp
qed

text \<open>The scenario of the specification has \<open>pad2 = 2\<close> for the domain length 4; the formula,
  which is the one of the source, gives 0.\<close>

theorem cache_field_layout_counterexample:
  "dwJoke0 8 = 0 \<and> dwJoke1 4 = 0 \<and> dwJoke1 4 \<noteq> 2"
  by (simp add: dwJoke0_def dwJoke1_def)

end
